theory Spec2Isabelle
  imports Main "HOL-Library.Word" "HOL-Library.Monad_Syntax"
begin

unbundle bit_operations_syntax

section \<open>Buffers and text\<close>

text \<open>
  A \<open>Uint8Array\<close> is a list of bytes. The text parsers first run
  \<open>new TextDecoder('ascii').decode(buffer)\<close>; the label \<open>ascii\<close> selects the
  windows-1252 decoder, which maps every byte to exactly one character and never fails.
  So a decoded text is a \<open>string\<close> with one \<open>char\<close> per byte: the \<open>char\<close> \<open>n\<close> stands
  for the character that byte \<open>n\<close> decodes to.
\<close>

type_synonym byte = "8 word"

definition decode_ascii :: "byte list \<Rightarrow> string" where
  "decode_ascii buffer = map (\<lambda>b. char_of (unat b)) buffer"

section \<open>Reading a \<open>DataView\<close>\<close>

text \<open>
  A \<open>DataView\<close> read outside the buffer throws a \<open>RangeError\<close>: the readers return
  \<open>None\<close> there. All multi-byte reads in this code base are little-endian.
\<close>

definition le16 :: "byte \<Rightarrow> byte \<Rightarrow> 32 word" where
  "le16 b0 b1 = ucast b0 OR push_bit 8 (ucast b1)"

definition le32 :: "byte \<Rightarrow> byte \<Rightarrow> byte \<Rightarrow> byte \<Rightarrow> 32 word" where
  "le32 b0 b1 b2 b3 =
     ucast b0 OR push_bit 8 (ucast b1) OR push_bit 16 (ucast b2) OR push_bit 24 (ucast b3)"

definition getUint8 :: "byte list \<Rightarrow> nat \<Rightarrow> byte option" where
  "getUint8 view off = (if off < length view then Some (view ! off) else None)"

definition getUint16 :: "byte list \<Rightarrow> nat \<Rightarrow> 32 word option" where
  "getUint16 view off =
     (if off + 2 \<le> length view then Some (le16 (view ! off) (view ! (off + 1))) else None)"

definition getUint32 :: "byte list \<Rightarrow> nat \<Rightarrow> 32 word option" where
  "getUint32 view off =
     (if off + 4 \<le> length view
      then Some (le32 (view ! off) (view ! (off + 1)) (view ! (off + 2)) (view ! (off + 3)))
      else None)"

definition getInt32 :: "byte list \<Rightarrow> nat \<Rightarrow> int option" where
  "getInt32 view off = map_option sint (getUint32 view off)"

text \<open>
  A 32-bit float is kept as its four bytes, read little-endian into a word: the IEEE-754
  bit pattern. No claim here depends on the value the pattern stands for.
\<close>

type_synonym float32 = "32 word"

definition getFloat32 :: "byte list \<Rightarrow> nat \<Rightarrow> float32 option" where
  "getFloat32 view off = getUint32 view off"

section \<open>Field animation (animfile.ts)\<close>

record FieldRotation =
  alpha :: float32
  beta :: float32
  gamma :: float32

text \<open>The fields \<open>x\<close>, \<open>y\<close>, \<open>z\<close> of \<open>rootTranslation\<close>, suffixed to leave the variable names free.\<close>

record FieldTranslation =
  x_tr :: float32
  y_tr :: float32
  z_tr :: float32

record FieldFrame =
  rootRotation :: FieldRotation
  rootTranslation :: FieldTranslation
  boneRotations :: "FieldRotation list"

record FieldAnimationData =
  version_anim :: int
  nFrames :: int
  nBones :: int
  rotationOrder :: "byte \<times> byte \<times> byte"
  frames :: "FieldFrame list"

text \<open>The three floats of a rotation, at \<open>offset\<close>, \<open>offset + 4\<close> and \<open>offset + 8\<close>.\<close>

definition read_rotation :: "byte list \<Rightarrow> nat \<Rightarrow> FieldRotation option" where
  "read_rotation view offset = do {
     a \<leftarrow> getFloat32 view offset;
     b \<leftarrow> getFloat32 view (offset + 4);
     g \<leftarrow> getFloat32 view (offset + 8);
     Some \<lparr> alpha = a, beta = b, gamma = g \<rparr>
   }"

definition read_translation :: "byte list \<Rightarrow> nat \<Rightarrow> FieldTranslation option" where
  "read_translation view offset = do {
     a \<leftarrow> getFloat32 view offset;
     b \<leftarrow> getFloat32 view (offset + 4);
     c \<leftarrow> getFloat32 view (offset + 8);
     Some \<lparr> x_tr = a, y_tr = b, z_tr = c \<rparr>
   }"

text \<open>
  The inner loop \<open>for (bi = 0; bi < boneCount; bi++)\<close>, by the number of iterations left;
  it returns the rotations pushed and the offset it ends at.
\<close>

fun boneRotations_loop :: "byte list \<Rightarrow> nat \<Rightarrow> nat \<Rightarrow> (FieldRotation list \<times> nat) option" where
  "boneRotations_loop view 0 offset = Some ([], offset)"
| "boneRotations_loop view (Suc n) offset = do {
     r \<leftarrow> read_rotation view offset;
     (rs, offset') \<leftarrow> boneRotations_loop view n (offset + 12);
     Some (r # rs, offset')
   }"

text \<open>
  The outer loop \<open>for (fi = 0; fi < nFrames; fi++)\<close>, by the number of iterations left,
  with \<open>boneCount = nBones > 0 ? nBones : 1\<close>.
\<close>

fun frames_loop :: "byte list \<Rightarrow> int \<Rightarrow> nat \<Rightarrow> nat \<Rightarrow> FieldFrame list option" where
  "frames_loop view nb 0 offset = Some []"
| "frames_loop view nb (Suc n) offset = do {
     rot \<leftarrow> read_rotation view offset;
     tr \<leftarrow> read_translation view (offset + 12);
     (brs, offset') \<leftarrow>
        boneRotations_loop view (if nb > 0 then nat nb else 1) (offset + 24);
     rest \<leftarrow> frames_loop view nb n offset';
     Some (\<lparr> rootRotation = rot, rootTranslation = tr, boneRotations = brs \<rparr> # rest)
   }"

text \<open>
  \<open>FieldAnimation.parse\<close>: three signed 32-bit integers, three bytes of rotation order and
  one unused byte (offset 16 after them), 20 bytes skipped (offset 36), then the frames.
  A negative \<open>nFrames\<close> runs the loop zero times.
\<close>

definition parse_anim :: "byte list \<Rightarrow> FieldAnimationData option" where
  "parse_anim view = do {
     v \<leftarrow> getInt32 view 0;
     nf \<leftarrow> getInt32 view 4;
     nb \<leftarrow> getInt32 view 8;
     r0 \<leftarrow> getUint8 view 12;
     r1 \<leftarrow> getUint8 view 13;
     r2 \<leftarrow> getUint8 view 14;
     fs \<leftarrow> frames_loop view nb (nat nf) 36;
     Some \<lparr> version_anim = v, nFrames = nf, nBones = nb,
            rotationOrder = (r0, r1, r2), frames = fs \<rparr>
   }"

text \<open>
  Two example buffers: version 1, rotation order 1, 0, 2, all floats zero; the first
  declares 2 frames and 0 bones, the second 1 frame and 5 bones.
\<close>

definition two_frames_no_bones :: "byte list" where
  "two_frames_no_bones = [1, 0, 0, 0,  2, 0, 0, 0,  0, 0, 0, 0,  1, 0, 2, 0] @ replicate 92 0"

definition one_frame_five_bones :: "byte list" where
  "one_frame_five_bones =
     [1, 0, 0, 0,  1, 0, 0, 0,  5, 0, 0, 0,  1, 0, 2, 0] @ replicate 104 0"

section \<open>Resource descriptor (rsdfile.ts, class RSDFile)\<close>

text \<open>
  The characters that \<open>String.prototype.trim\<close> strips and \<open>parseInt\<close> skips, among those
  a decoded text can hold: tab, line feed, vertical tab, form feed, carriage return,
  space and the no-break space \<open>0xA0\<close>.
\<close>

definition isWhiteSpace :: "char \<Rightarrow> bool" where
  "isWhiteSpace c = ((of_char c :: nat) \<in> set [9, 10, 11, 12, 13, 32, 160])"

definition trim :: "string \<Rightarrow> string" where
  "trim s = rev (dropWhile isWhiteSpace (rev (dropWhile isWhiteSpace s)))"

text \<open>
  \<open>text.split(/\r?\n/)\<close>: the text is cut at every line feed, and a carriage return
  directly before the line feed belongs to the separator. \<open>cur\<close> holds the characters of
  the current piece, last one first. The empty text splits into one empty piece.
\<close>

fun split_lines :: "string \<Rightarrow> string \<Rightarrow> string list" where
  "split_lines cur [] = [rev cur]"
| "split_lines cur (c # cs) =
     (if c = CHR 0x0A then rev cur # split_lines [] cs
      else if c = CHR 0x0D then
        (case cs of
           [] \<Rightarrow> split_lines (c # cur) cs
         | d # ds \<Rightarrow>
             if d = CHR 0x0A then rev cur # split_lines [] ds
             else split_lines (c # cur) cs)
      else split_lines (c # cur) cs)"

definition startsWith :: "string \<Rightarrow> string \<Rightarrow> bool" where
  "startsWith s p = (take (length p) s = p)"

definition isDigit :: "char \<Rightarrow> bool" where
  "isDigit c = (48 \<le> (of_char c :: nat) \<and> (of_char c :: nat) \<le> 57)"

definition digits_value :: "string \<Rightarrow> int" where
  "digits_value ds = foldl (\<lambda>a c. 10 * a + (int (of_char c) - 48)) 0 ds"

text \<open>
  \<open>parseInt(s, 10)\<close>: leading white space is skipped, one sign is read, then the longest
  run of decimal digits; with no digit the result is \<open>NaN\<close>, here \<open>None\<close>. The value is an
  unbounded \<open>int\<close>; JavaScript rounds it to a double above \<open>2^53\<close>, which is left out.
\<close>

definition parseInt :: "string \<Rightarrow> int option" where
  "parseInt s =
     (let t = dropWhile isWhiteSpace s;
          sign = (case t of [] \<Rightarrow> 1 | c # r \<Rightarrow> if c = CHR ''-'' then - 1 else (1 :: int));
          u = (case t of [] \<Rightarrow> t | c # r \<Rightarrow> if c = CHR ''-'' \<or> c = CHR ''+'' then r else t);
          ds = takeWhile isDigit u
      in if ds = [] then None else Some (sign * digits_value ds))"

text \<open>
  \<open>line.match(/TEX\[\d+\]=(.+)/)\<close>. The pattern is not anchored: it is tried at every
  position from the left, and the first position where it matches gives the capture. The
  dot matches every character except the line terminators, so the capture is the longest
  run of such characters after \<open>]=\<close>, and it must not be empty.
\<close>

definition isLineTerminator :: "char \<Rightarrow> bool" where
  "isLineTerminator c = (c = CHR 0x0A \<or> c = CHR 0x0D)"

definition match_TEX_here :: "string \<Rightarrow> string option" where
  "match_TEX_here s =
     (if startsWith s ''TEX['' then
        let r = drop 4 s; ds = takeWhile isDigit r; r' = dropWhile isDigit r in
        if ds \<noteq> [] \<and> startsWith r' '']='' then
          let v = takeWhile (\<lambda>c. \<not> isLineTerminator c) (drop 2 r') in
          if v \<noteq> [] then Some v else None
        else None
      else None)"

fun match_TEX :: "string \<Rightarrow> string option" where
  "match_TEX [] = None"
| "match_TEX (c # cs) =
     (case match_TEX_here (c # cs) of Some v \<Rightarrow> Some v | None \<Rightarrow> match_TEX cs)"

text \<open>\<open>RSDData\<close>; the field \<open>id\<close> is called \<open>id_rsd\<close> since \<open>id\<close> is the identity function.\<close>

record RSDData =
  id_rsd :: string
  plyFile :: string
  matFile :: string
  grpFile :: string
  numTextures :: int
  textures :: "string list"

definition empty_rsd :: RSDData where
  "empty_rsd = \<lparr> id_rsd = [], plyFile = [], matFile = [], grpFile = [],
                 numTextures = 0, textures = [] \<rparr>"

text \<open>The body of \<open>for (const line of lines)\<close>; \<open>parseInt(..) || 0\<close> turns \<open>NaN\<close> into 0.\<close>

definition parse_line :: "RSDData \<Rightarrow> string \<Rightarrow> RSDData" where
  "parse_line data line =
     (if startsWith line ''@RSD'' then data\<lparr>id_rsd := line\<rparr>
      else if startsWith line ''PLY='' then data\<lparr>plyFile := drop 4 line\<rparr>
      else if startsWith line ''MAT='' then data\<lparr>matFile := drop 4 line\<rparr>
      else if startsWith line ''GRP='' then data\<lparr>grpFile := drop 4 line\<rparr>
      else if startsWith line ''NTEX='' then
        data\<lparr>numTextures := (case parseInt (drop 5 line) of None \<Rightarrow> 0 | Some n \<Rightarrow> n)\<rparr>
      else if startsWith line ''TEX['' then
        (case match_TEX line of
           None \<Rightarrow> data
         | Some v \<Rightarrow> data\<lparr>textures := textures data @ [v]\<rparr>)
      else data)"

definition lines_of :: "string \<Rightarrow> string list" where
  "lines_of text = filter (\<lambda>l. length l > 0) (map trim (split_lines [] text))"

definition parse_rsd :: "string \<Rightarrow> RSDData" where
  "parse_rsd text = foldl parse_line empty_rsd (lines_of text)"

definition RSDFile :: "byte list \<Rightarrow> RSDData" where
  "RSDFile buffer = parse_rsd (decode_ascii buffer)"

text \<open>The line prefixes the parser knows.\<close>

definition recognised :: "string \<Rightarrow> bool" where
  "recognised line =
     (startsWith line ''@RSD'' \<or> startsWith line ''PLY='' \<or> startsWith line ''MAT=''
      \<or> startsWith line ''GRP='' \<or> startsWith line ''NTEX='' \<or> startsWith line ''TEX['')"

definition garbage_rsd :: "byte list" where
  "garbage_rsd = [0xFF, 0x00, 0x0D, 0x0A, 0x0A, 0x20, 0x47, 0x0D, 0x50, 0x4C, 0x59, 0x0A]"

section \<open>Texture codec (texfile.ts)\<close>

record PixelFormat =
  redBits :: "32 word"
  greenBits :: "32 word"
  blueBits :: "32 word"
  alphaBits :: "32 word"
  redMask :: "32 word"
  greenMask :: "32 word"
  blueMask :: "32 word"
  alphaMask :: "32 word"
  redShift :: "32 word"
  greenShift :: "32 word"
  blueShift :: "32 word"
  alphaShift :: "32 word"
  redLoss :: "32 word"
  greenLoss :: "32 word"
  blueLoss :: "32 word"
  alphaLoss :: "32 word"
  redMax :: "32 word"
  greenMax :: "32 word"
  blueMax :: "32 word"
  alphaMax :: "32 word"

text \<open>
  \<open>TexData\<close>. The header fields are the unsigned 32-bit values the parser reads. The
  parser's internal fields \<open>_formatIndicator\<close> and \<open>_headerSize\<close> drop the underscore.
  \<open>paletteIndex\<close> is declared in the interface but no parser step sets it: it is
  \<open>None\<close> (\<open>undefined\<close>) in every decoded texture. \<open>palette\<close> and \<open>colorKeyArray\<close> are
  optional; \<open>pixels\<close> is empty until the constructor fills it.
\<close>

record TexData =
  version :: "32 word"
  colorKeyFlag :: "32 word"
  minBitsPerColor :: "32 word"
  maxBitsPerColor :: "32 word"
  minAlphaBits :: "32 word"
  maxAlphaBits :: "32 word"
  minBitsPerPixel :: "32 word"
  maxBitsPerPixel :: "32 word"
  numPalettes :: "32 word"
  colorsPerPalette :: "32 word"
  bitDepth :: "32 word"
  width :: "32 word"
  height :: "32 word"
  bytesPerRow :: "32 word"
  paletteFlag :: "32 word"
  bitsPerIndex :: "32 word"
  indexedTo8bit :: "32 word"
  paletteSize :: "32 word"
  colorsPerPaletteAgain :: "32 word"
  bitsPerPixel :: "32 word"
  bytesPerPixel :: "32 word"
  pixelFormat :: PixelFormat
  colorKeyArrayFlag :: "32 word"
  referenceAlpha :: "32 word"
  paletteIndex :: "32 word option"
  palette :: "byte list option"
  pixels :: "byte list"
  colorKeyArray :: "byte list option"
  formatIndicator :: "32 word"
  headerSize :: nat

subsection \<open>The header parser\<close>

text \<open>
  The steps of the \<open>binary-parser\<close> library, on the buffer and the current offset:
  \<open>uint32le\<close> reads four bytes little-endian and advances by 4, and fails (\<open>None\<close>, the
  \<open>RangeError\<close> of the underlying \<open>DataView\<close>) when they are not all inside the buffer;
  \<open>skip\<close> and \<open>seek\<close> move the offset by a relative amount without reading.
\<close>

definition uint32le :: "byte list \<Rightarrow> nat \<Rightarrow> (32 word \<times> nat) option" where
  "uint32le buf off = map_option (\<lambda>v. (v, off + 4)) (getUint32 buf off)"

definition skip :: "nat \<Rightarrow> nat \<Rightarrow> nat" where
  "skip n off = off + n"

definition seek :: "int \<Rightarrow> nat \<Rightarrow> nat" where
  "seek d off = nat (int off + d)"

definition pixelFormatParser :: "byte list \<Rightarrow> nat \<Rightarrow> (PixelFormat \<times> nat) option" where
  "pixelFormatParser buf off0 = do {
     (redBits, off) \<leftarrow> uint32le buf off0;
     (greenBits, off) \<leftarrow> uint32le buf off;
     (blueBits, off) \<leftarrow> uint32le buf off;
     (alphaBits, off) \<leftarrow> uint32le buf off;
     (redMask, off) \<leftarrow> uint32le buf off;
     (greenMask, off) \<leftarrow> uint32le buf off;
     (blueMask, off) \<leftarrow> uint32le buf off;
     (alphaMask, off) \<leftarrow> uint32le buf off;
     (redShift, off) \<leftarrow> uint32le buf off;
     (greenShift, off) \<leftarrow> uint32le buf off;
     (blueShift, off) \<leftarrow> uint32le buf off;
     (alphaShift, off) \<leftarrow> uint32le buf off;
     (redLoss, off) \<leftarrow> uint32le buf off;
     (greenLoss, off) \<leftarrow> uint32le buf off;
     (blueLoss, off) \<leftarrow> uint32le buf off;
     (alphaLoss, off) \<leftarrow> uint32le buf off;
     (redMax, off) \<leftarrow> uint32le buf off;
     (greenMax, off) \<leftarrow> uint32le buf off;
     (blueMax, off) \<leftarrow> uint32le buf off;
     (alphaMax, off) \<leftarrow> uint32le buf off;
     Some (\<lparr> redBits = redBits,
            greenBits = greenBits,
            blueBits = blueBits,
            alphaBits = alphaBits,
            redMask = redMask,
            greenMask = greenMask,
            blueMask = blueMask,
            alphaMask = alphaMask,
            redShift = redShift,
            greenShift = greenShift,
            blueShift = blueShift,
            alphaShift = alphaShift,
            redLoss = redLoss,
            greenLoss = greenLoss,
            blueLoss = blueLoss,
            alphaLoss = alphaLoss,
            redMax = redMax,
            greenMax = greenMax,
            blueMax = blueMax,
            alphaMax = alphaMax \<rparr>, off)
   }"

text \<open>
  \<open>texHeaderParser\<close>, step by step as the source chains them. After \<open>_formatIndicator\<close>
  is read at \<open>0x2C\<close>, the \<open>seek\<close> moves back by 4 when it is not zero, so that the next
  step reads the same bytes again as \<open>numPalettes\<close>. \<open>saveOffset\<close> stores the offset
  reached.
\<close>

definition texHeaderParser :: "byte list \<Rightarrow> TexData option" where
  "texHeaderParser buf = do {
     (version, off) \<leftarrow> uint32le buf 0;
     let off = skip 4 off;
     (colorKeyFlag, off) \<leftarrow> uint32le buf off;
     let off = skip 8 off;
     (minBitsPerColor, off) \<leftarrow> uint32le buf off;
     (maxBitsPerColor, off) \<leftarrow> uint32le buf off;
     (minAlphaBits, off) \<leftarrow> uint32le buf off;
     (maxAlphaBits, off) \<leftarrow> uint32le buf off;
     (minBitsPerPixel, off) \<leftarrow> uint32le buf off;
     (maxBitsPerPixel, off) \<leftarrow> uint32le buf off;
     (formatIndicator, off) \<leftarrow> uint32le buf off;
     let off = seek (if formatIndicator \<noteq> 0 then - 4 else 0) off;
     (numPalettes, off) \<leftarrow> uint32le buf off;
     (colorsPerPalette, off) \<leftarrow> uint32le buf off;
     (bitDepth, off) \<leftarrow> uint32le buf off;
     (width, off) \<leftarrow> uint32le buf off;
     (height, off) \<leftarrow> uint32le buf off;
     (bytesPerRow, off) \<leftarrow> uint32le buf off;
     let off = skip 4 off;
     (paletteFlag, off) \<leftarrow> uint32le buf off;
     (bitsPerIndex, off) \<leftarrow> uint32le buf off;
     (indexedTo8bit, off) \<leftarrow> uint32le buf off;
     (paletteSize, off) \<leftarrow> uint32le buf off;
     (colorsPerPaletteAgain, off) \<leftarrow> uint32le buf off;
     let off = skip 4 off;
     (bitsPerPixel, off) \<leftarrow> uint32le buf off;
     (bytesPerPixel, off) \<leftarrow> uint32le buf off;
     (pixelFormat, off) \<leftarrow> pixelFormatParser buf off;
     (colorKeyArrayFlag, off) \<leftarrow> uint32le buf off;
     let off = skip 4 off;
     (referenceAlpha, off) \<leftarrow> uint32le buf off;
     let off = skip 36 off;
     Some \<lparr> version = version, colorKeyFlag = colorKeyFlag,
            minBitsPerColor = minBitsPerColor, maxBitsPerColor = maxBitsPerColor,
            minAlphaBits = minAlphaBits, maxAlphaBits = maxAlphaBits,
            minBitsPerPixel = minBitsPerPixel, maxBitsPerPixel = maxBitsPerPixel,
            numPalettes = numPalettes, colorsPerPalette = colorsPerPalette,
            bitDepth = bitDepth, width = width, height = height,
            bytesPerRow = bytesPerRow, paletteFlag = paletteFlag,
            bitsPerIndex = bitsPerIndex, indexedTo8bit = indexedTo8bit,
            paletteSize = paletteSize, colorsPerPaletteAgain = colorsPerPaletteAgain,
            bitsPerPixel = bitsPerPixel, bytesPerPixel = bytesPerPixel,
            pixelFormat = pixelFormat, colorKeyArrayFlag = colorKeyArrayFlag,
            referenceAlpha = referenceAlpha, paletteIndex = None, palette = None,
            pixels = [], colorKeyArray = None, formatIndicator = formatIndicator,
            headerSize = off \<rparr>
   }"

definition isValidTexData :: "TexData \<Rightarrow> bool" where
  "isValidTexData data =
     (unat (width data) > 0 \<and> unat (width data) \<le> 4096 \<and>
      unat (height data) > 0 \<and> unat (height data) \<le> 4096 \<and>
      unat (bitDepth data) > 0 \<and> unat (bitDepth data) \<le> 32 \<and>
      unat (bytesPerPixel data) > 0 \<and> unat (bytesPerPixel data) \<le> 4)"

subsection \<open>The constructor\<close>

text \<open>
  The three \<open>throw\<close> sites of the constructor. \<open>HeaderParseFailed\<close> is "Failed to parse
  TEX header" (the header parser threw); \<open>InvalidTexData w h bitDepth bytesPerPixel\<close> is
  "Invalid TEX data", with the four values its message prints; \<open>TruncatedPalette offset
  size\<close> and \<open>TruncatedPixels pixelDataSize offset size\<close> are the two "TEX file truncated"
  errors, with the numbers their messages print.
\<close>

datatype tex_error =
    HeaderParseFailed
  | InvalidTexData nat nat nat nat
  | TruncatedPalette nat nat
  | TruncatedPixels nat nat nat

definition is_Truncated :: "tex_error \<Rightarrow> bool" where
  "is_Truncated e = (case e of TruncatedPalette _ _ \<Rightarrow> True | TruncatedPixels _ _ _ \<Rightarrow> True
                     | _ \<Rightarrow> False)"

text \<open>\<open>data.slice(a, b)\<close> for \<open>0 \<le> a \<le> b\<close>: the bytes from \<open>a\<close> up to \<open>b\<close>, cut at the end.\<close>

definition slice_bytes :: "byte list \<Rightarrow> nat \<Rightarrow> nat \<Rightarrow> byte list" where
  "slice_bytes data a b = take (b - a) (drop a data)"

text \<open>
  The constructor after validation, in its three stages; each returns the structure and
  the offset reached. Sizes are JavaScript numbers, so the products and sums of the
  32-bit fields do not wrap: they are computed on \<open>nat\<close>.
\<close>

definition read_palette :: "byte list \<Rightarrow> TexData \<Rightarrow> nat \<Rightarrow> tex_error + (TexData \<times> nat)" where
  "read_palette data d offset =
     (if paletteFlag d \<noteq> 0 then
        let paletteSize = unat (paletteSize d) * 4 in
        if offset + paletteSize > length data
        then Inl (TruncatedPalette offset (length data))
        else Inr (d\<lparr>palette := Some (slice_bytes data offset (offset + paletteSize))\<rparr>,
                  offset + paletteSize)
      else Inr (d, offset))"

definition read_pixels :: "byte list \<Rightarrow> TexData \<Rightarrow> nat \<Rightarrow> tex_error + (TexData \<times> nat)" where
  "read_pixels data d offset =
     (let pixelDataSize = unat (width d) * unat (height d) * unat (bytesPerPixel d) in
      if offset + pixelDataSize > length data
      then Inl (TruncatedPixels pixelDataSize offset (length data))
      else Inr (d\<lparr>pixels := slice_bytes data offset (offset + pixelDataSize)\<rparr>,
                offset + pixelDataSize))"

definition read_colorKeyArray :: "byte list \<Rightarrow> TexData \<Rightarrow> nat \<Rightarrow> TexData" where
  "read_colorKeyArray data d offset =
     (if colorKeyArrayFlag d \<noteq> 0 then
        let colorKeyArraySize = unat (numPalettes d) in
        if offset + colorKeyArraySize \<le> length data
        then d\<lparr>colorKeyArray := Some (slice_bytes data offset (offset + colorKeyArraySize))\<rparr>
        else d
      else d)"

definition TexFile :: "byte list \<Rightarrow> tex_error + TexData" where
  "TexFile data =
     (case texHeaderParser data of
        None \<Rightarrow> Inl HeaderParseFailed
      | Some header \<Rightarrow>
          if \<not> isValidTexData header then
            Inl (InvalidTexData (unat (width header)) (unat (height header))
                   (unat (bitDepth header)) (unat (bytesPerPixel header)))
          else
            (case read_palette data header (headerSize header) of
               Inl e \<Rightarrow> Inl e
             | Inr (d1, offset1) \<Rightarrow>
                 (case read_pixels data d1 offset1 of
                    Inl e \<Rightarrow> Inl e
                  | Inr (d2, offset2) \<Rightarrow> Inr (read_colorKeyArray data d2 offset2))))"

subsection \<open>The header layout as a table\<close>

text \<open>
  The 32-bit value at an offset, and the header as a table of offsets: the fields up to
  the format indicator at \<open>0x2C\<close> sit at fixed offsets, the later ones at their standard
  offset minus \<open>shift\<close>, where \<open>shift\<close> is 0 in the standard layout (header size \<open>0xEC\<close>)
  and 4 in the alternative layout (header size \<open>0xE8\<close>). The table is compared with
  the sequential parser below.
\<close>

definition u32at :: "byte list \<Rightarrow> nat \<Rightarrow> 32 word" where
  "u32at buf off = le32 (buf ! off) (buf ! (off + 1)) (buf ! (off + 2)) (buf ! (off + 3))"

definition pixelFormat_at :: "byte list \<Rightarrow> nat \<Rightarrow> PixelFormat" where
  "pixelFormat_at buf off =
     \<lparr> redBits = u32at buf (off + 0),
       greenBits = u32at buf (off + 4),
       blueBits = u32at buf (off + 8),
       alphaBits = u32at buf (off + 12),
       redMask = u32at buf (off + 16),
       greenMask = u32at buf (off + 20),
       blueMask = u32at buf (off + 24),
       alphaMask = u32at buf (off + 28),
       redShift = u32at buf (off + 32),
       greenShift = u32at buf (off + 36),
       blueShift = u32at buf (off + 40),
       alphaShift = u32at buf (off + 44),
       redLoss = u32at buf (off + 48),
       greenLoss = u32at buf (off + 52),
       blueLoss = u32at buf (off + 56),
       alphaLoss = u32at buf (off + 60),
       redMax = u32at buf (off + 64),
       greenMax = u32at buf (off + 68),
       blueMax = u32at buf (off + 72),
       alphaMax = u32at buf (off + 76) \<rparr>"

definition header_layout :: "byte list \<Rightarrow> nat \<Rightarrow> TexData" where
  "header_layout buf shift =
     \<lparr> version = u32at buf 0,
       colorKeyFlag = u32at buf 8,
       minBitsPerColor = u32at buf 20,
       maxBitsPerColor = u32at buf 24,
       minAlphaBits = u32at buf 28,
       maxAlphaBits = u32at buf 32,
       minBitsPerPixel = u32at buf 36,
       maxBitsPerPixel = u32at buf 40,
       numPalettes = u32at buf (48 - shift),
       colorsPerPalette = u32at buf (52 - shift),
       bitDepth = u32at buf (56 - shift),
       width = u32at buf (60 - shift),
       height = u32at buf (64 - shift),
       bytesPerRow = u32at buf (68 - shift),
       paletteFlag = u32at buf (76 - shift),
       bitsPerIndex = u32at buf (80 - shift),
       indexedTo8bit = u32at buf (84 - shift),
       paletteSize = u32at buf (88 - shift),
       colorsPerPaletteAgain = u32at buf (92 - shift),
       bitsPerPixel = u32at buf (100 - shift),
       bytesPerPixel = u32at buf (104 - shift),
       pixelFormat = pixelFormat_at buf (108 - shift),
       colorKeyArrayFlag = u32at buf (188 - shift),
       referenceAlpha = u32at buf (196 - shift),
       paletteIndex = None, palette = None, pixels = [], colorKeyArray = None,
       formatIndicator = u32at buf 44,
       headerSize = 236 - shift \<rparr>"

subsection \<open>Pixel expansion\<close>

datatype js_error = RangeError | TypeError

text \<open>
  \<open>Math.floor(a / b)\<close> on integers below \<open>2^32\<close>. For \<open>b = 0\<close> JavaScript does not throw:
  the quotient is \<open>Infinity\<close> or \<open>NaN\<close>, which is no number of colours; that is \<open>None\<close>.
\<close>

definition js_floor_div :: "nat \<Rightarrow> nat \<Rightarrow> nat option" where
  "js_floor_div a b = (if b = 0 then None else Some (a div b))"

definition actualColorsPerPalette :: "TexData \<Rightarrow> nat option" where
  "actualColorsPerPalette d =
     (if unat (numPalettes d) > 0
      then js_floor_div (unat (paletteSize d)) (unat (numPalettes d))
      else Some (unat (colorsPerPalette d)))"

text \<open>
  Reading a typed array at an index and storing the result into a \<open>Uint8Array\<close>: an
  index outside the array (or one that is not a number, \<open>None\<close>) reads \<open>undefined\<close>,
  which is stored as 0.
\<close>

definition byte_at :: "byte list \<Rightarrow> nat option \<Rightarrow> byte" where
  "byte_at xs i = (case i of None \<Rightarrow> 0 | Some k \<Rightarrow> if k < length xs then xs ! k else 0)"

text \<open>\<open>this.data.pixels[i] * 4 + paletteOffset\<close>; not a number when either part is not.\<close>

definition colorIndex :: "byte list \<Rightarrow> nat option \<Rightarrow> nat \<Rightarrow> nat option" where
  "colorIndex px paletteOffset i =
     (if i < length px then map_option (\<lambda>off. unat (px ! i) * 4 + off) paletteOffset
      else None)"

text \<open>
  The palette loop, from pixel \<open>i\<close> with \<open>n\<close> pixels left. The output array is written at
  \<open>4 i .. 4 i + 3\<close> for rising \<open>i\<close>, so it is the list of the quadruples in order.
\<close>

fun palette_loop :: "byte list \<Rightarrow> byte list \<Rightarrow> nat option \<Rightarrow> nat \<Rightarrow> nat \<Rightarrow> byte list" where
  "palette_loop pal px po i 0 = []"
| "palette_loop pal px po i (Suc n) =
     (let c = colorIndex px po i in
        [ byte_at pal (map_option (\<lambda>k. k + 2) c),
          byte_at pal (map_option (\<lambda>k. k + 1) c),
          byte_at pal c,
          byte_at pal (map_option (\<lambda>k. k + 3) c) ]
        @ palette_loop pal px po (i + 1) n)"

text \<open>
  \<open>new DataView(pixels.buffer, pixelOffset, bytesPerPixel)\<close> throws a \<open>RangeError\<close> when
  the window leaves the buffer; \<open>getUint16\<close> and \<open>getUint32\<close> throw one when the window
  is shorter than 2 or 4 bytes. \<open>pixels\<close> is a fresh copy made by \<open>slice\<close>, so its buffer
  is the pixel bytes themselves.
\<close>

definition pixel_value :: "byte list \<Rightarrow> nat \<Rightarrow> nat \<Rightarrow> 32 word option" where
  "pixel_value px bpp i =
     (let pixelOffset = i * bpp in
      if pixelOffset + bpp \<le> length px then
        let pixel = slice_bytes px pixelOffset (pixelOffset + bpp) in
        if bpp = 2 then getUint16 pixel 0 else getUint32 pixel 0
      else None)"

text \<open>
  \<open>((value & msk) >> shift) << (8 - bits)\<close> stored into a \<open>Uint8Array\<close>. The bitwise
  operators work on 32-bit integers: \<open>>>\<close> keeps the sign and uses the low five bits of
  its count, \<open><<\<close> uses the low five bits of \<open>8 - bits\<close> taken modulo \<open>2^32\<close>, and the store
  keeps the low eight bits.
\<close>

definition channel :: "32 word \<Rightarrow> 32 word \<Rightarrow> 32 word \<Rightarrow> 32 word \<Rightarrow> byte" where
  "channel val msk shift bits =
     ucast (push_bit (nat ((8 - int (unat bits)) mod 32))
              (signed_drop_bit (unat shift mod 32) (val AND msk)))"

definition rgba :: "PixelFormat \<Rightarrow> 32 word \<Rightarrow> byte list" where
  "rgba format val =
     [ channel val (redMask format) (redShift format) (redBits format),
       channel val (greenMask format) (greenShift format) (greenBits format),
       channel val (blueMask format) (blueShift format) (blueBits format),
       (if unat (alphaBits format) > 0
        then channel val (alphaMask format) (alphaShift format) (alphaBits format)
        else 255) ]"

fun direct_loop :: "PixelFormat \<Rightarrow> byte list \<Rightarrow> nat \<Rightarrow> nat \<Rightarrow> nat \<Rightarrow> byte list option" where
  "direct_loop format px bpp i 0 = Some []"
| "direct_loop format px bpp i (Suc n) = do {
     val \<leftarrow> pixel_value px bpp i;
     rest \<leftarrow> direct_loop format px bpp (i + 1) n;
     Some (rgba format val @ rest)
   }"

text \<open>
  \<open>getPixels(paletteIndex)\<close>, for a palette index \<open>palIndex\<close> that is a natural
  number (the parameter is renamed since \<open>paletteIndex\<close> is a field). With the
  palette flag set and no palette object, the first read of \<open>this.data.palette![..]\<close>
  throws a \<open>TypeError\<close>.
\<close>

definition getPixels :: "TexData \<Rightarrow> nat \<Rightarrow> js_error + byte list" where
  "getPixels d palIndex =
     (let numPixels = unat (width d) * unat (height d) in
      if paletteFlag d \<noteq> 0 then
        (let paletteOffset = map_option (\<lambda>a. palIndex * a * 4) (actualColorsPerPalette d) in
         case palette d of
           None \<Rightarrow> if numPixels = 0 then Inr [] else Inl TypeError
         | Some pal \<Rightarrow> Inr (palette_loop pal (pixels d) paletteOffset 0 numPixels))
      else
        (case direct_loop (pixelFormat d) (pixels d) (unat (bytesPerPixel d)) 0 numPixels of
           None \<Rightarrow> Inl RangeError
         | Some output \<Rightarrow> Inr output))"

subsection \<open>Re-encoding\<close>

text \<open>
  \<open>DataView.setUint32(offset, v, true)\<close> and \<open>Uint8Array.set(source, offset)\<close>; both throw
  a \<open>RangeError\<close> (\<open>None\<close>) when the bytes written would leave the array.
\<close>

definition setUint32 :: "byte list \<Rightarrow> nat \<Rightarrow> 32 word \<Rightarrow> byte list option" where
  "setUint32 out off v =
     (if off + 4 \<le> length out
      then Some (out[off := ucast v, off + 1 := ucast (drop_bit 8 v),
                     off + 2 := ucast (drop_bit 16 v), off + 3 := ucast (drop_bit 24 v)])
      else None)"

definition set_array :: "byte list \<Rightarrow> byte list \<Rightarrow> nat \<Rightarrow> byte list option" where
  "set_array out src off =
     (if length src + off \<le> length out
      then Some (take off out @ src @ drop (off + length src) out)
      else None)"

text \<open>
  The state of the writer is the output array and \<open>offset\<close>. \<open>put v\<close> is
  \<open>view.setUint32(offset, v, true); offset += 4\<close>, and \<open>adv n\<close> is \<open>offset += n\<close>.
\<close>

definition put :: "32 word \<Rightarrow> byte list \<times> nat \<Rightarrow> (byte list \<times> nat) option" where
  "put v s = map_option (\<lambda>out. (out, snd s + 4)) (setUint32 (fst s) (snd s) v)"

definition adv :: "nat \<Rightarrow> byte list \<times> nat \<Rightarrow> byte list \<times> nat" where
  "adv n s = (fst s, snd s + n)"

text \<open>
  The header part of \<open>writeFile\<close>, statement by statement. \<open>paletteIndex\<close> is
  \<open>undefined\<close> in a decoded texture, and \<open>setUint32\<close> writes \<open>undefined\<close> as 0.
\<close>

definition write_header :: "TexData \<Rightarrow> byte list \<Rightarrow> (byte list \<times> nat) option" where
  "write_header d out = do {
     s \<leftarrow> put (version d) (out, 0);
     let s = adv 4 s;
     s \<leftarrow> put (colorKeyFlag d) s;
     let s = adv 12 s;
     s \<leftarrow> put (minBitsPerColor d) s;
     s \<leftarrow> put (maxBitsPerColor d) s;
     s \<leftarrow> put (minAlphaBits d) s;
     s \<leftarrow> put (maxAlphaBits d) s;
     s \<leftarrow> put (minBitsPerPixel d) s;
     s \<leftarrow> put (maxBitsPerPixel d) s;
     let s = adv 4 s;
     s \<leftarrow> put (numPalettes d) s;
     s \<leftarrow> put (colorsPerPalette d) s;
     s \<leftarrow> put (bitDepth d) s;
     s \<leftarrow> put (width d) s;
     s \<leftarrow> put (height d) s;
     s \<leftarrow> put (bytesPerRow d) s;
     let s = adv 4 s;
     s \<leftarrow> put (paletteFlag d) s;
     s \<leftarrow> put (bitsPerIndex d) s;
     s \<leftarrow> put (indexedTo8bit d) s;
     s \<leftarrow> put (paletteSize d) s;
     s \<leftarrow> put (colorsPerPaletteAgain d) s;
     let s = adv 4 s;
     s \<leftarrow> put (bitsPerPixel d) s;
     s \<leftarrow> put (bytesPerPixel d) s;
     s \<leftarrow> put (redBits (pixelFormat d)) s;
     s \<leftarrow> put (greenBits (pixelFormat d)) s;
     s \<leftarrow> put (blueBits (pixelFormat d)) s;
     s \<leftarrow> put (alphaBits (pixelFormat d)) s;
     s \<leftarrow> put (redMask (pixelFormat d)) s;
     s \<leftarrow> put (greenMask (pixelFormat d)) s;
     s \<leftarrow> put (blueMask (pixelFormat d)) s;
     s \<leftarrow> put (alphaMask (pixelFormat d)) s;
     s \<leftarrow> put (redShift (pixelFormat d)) s;
     s \<leftarrow> put (greenShift (pixelFormat d)) s;
     s \<leftarrow> put (blueShift (pixelFormat d)) s;
     s \<leftarrow> put (alphaShift (pixelFormat d)) s;
     s \<leftarrow> put (redLoss (pixelFormat d)) s;
     s \<leftarrow> put (greenLoss (pixelFormat d)) s;
     s \<leftarrow> put (blueLoss (pixelFormat d)) s;
     s \<leftarrow> put (alphaLoss (pixelFormat d)) s;
     s \<leftarrow> put (redMax (pixelFormat d)) s;
     s \<leftarrow> put (greenMax (pixelFormat d)) s;
     s \<leftarrow> put (blueMax (pixelFormat d)) s;
     s \<leftarrow> put (alphaMax (pixelFormat d)) s;
     s \<leftarrow> put (colorKeyArrayFlag d) s;
     let s = adv 4 s;
     s \<leftarrow> put (referenceAlpha d) s;
     let s = adv 24 s;
     s \<leftarrow> put (case paletteIndex d of None \<Rightarrow> 0 | Some v \<Rightarrow> v) s;
     let s = adv 20 s;
     Some s
   }"

definition write_payload :: "TexData \<Rightarrow> byte list \<times> nat \<Rightarrow> byte list option" where
  "write_payload d s = do {
     (out, offset) \<leftarrow>
        (case palette d of
           Some pal \<Rightarrow>
             if paletteFlag d \<noteq> 0
             then map_option (\<lambda>out. (out, snd s + length pal)) (set_array (fst s) pal (snd s))
             else Some s
         | None \<Rightarrow> Some s);
     out \<leftarrow> set_array out (pixels d) offset;
     let offset = offset + length (pixels d);
     (case colorKeyArray d of
        Some cka \<Rightarrow> if colorKeyArrayFlag d \<noteq> 0 then set_array out cka offset else Some out
      | None \<Rightarrow> Some out)
   }"

definition writeFile :: "TexData \<Rightarrow> js_error + byte list" where
  "writeFile d =
     (let paletteSize = (if paletteFlag d \<noteq> 0 then unat (paletteSize d) * 4 else 0);
          pixelDataSize = unat (width d) * unat (height d) * unat (bytesPerPixel d);
          colorKeyArraySize = (if colorKeyArrayFlag d \<noteq> 0 then unat (numPalettes d) else 0);
          totalSize = 0xEC + paletteSize + pixelDataSize + colorKeyArraySize;
          out = replicate totalSize 0
      in case write_header d out \<bind> write_payload d of
           None \<Rightarrow> Inl RangeError
         | Some out \<Rightarrow> Inr out)"

subsection \<open>Sizes and stages of the constructor, named\<close>

text \<open>
  The byte counts the constructor computes, and the structure after its palette and
  pixel stages, as functions of the parsed header.
\<close>

definition palette_bytes :: "TexData \<Rightarrow> nat" where
  "palette_bytes h = (if paletteFlag h \<noteq> 0 then unat (paletteSize h) * 4 else 0)"

definition pixel_bytes :: "TexData \<Rightarrow> nat" where
  "pixel_bytes h = unat (width h) * unat (height h) * unat (bytesPerPixel h)"

definition with_palette :: "byte list \<Rightarrow> TexData \<Rightarrow> TexData" where
  "with_palette buf h =
     (if paletteFlag h \<noteq> 0
      then h\<lparr>palette := Some (slice_bytes buf (headerSize h) (headerSize h + palette_bytes h))\<rparr>
      else h)"

definition with_pixels :: "byte list \<Rightarrow> TexData \<Rightarrow> TexData" where
  "with_pixels buf h =
     (with_palette buf h)\<lparr>pixels := slice_bytes buf (headerSize h + palette_bytes h)
                                   (headerSize h + palette_bytes h + pixel_bytes h)\<rparr>"

subsection \<open>Little-endian values, as the specification words them\<close>

text \<open>
  The unsigned integer that a list of bytes stands for when the first byte is the least
  significant. The pixel reader is compared with it below.
\<close>

definition little_endian_value :: "byte list \<Rightarrow> nat" where
  "little_endian_value bs = foldr (\<lambda>b acc. unat b + 256 * acc) bs 0"

subsection \<open>Example buffers\<close>

text \<open>\<open>put_bytes\<close> sets single bytes of a buffer, given as (offset, value) pairs.\<close>

definition put_bytes :: "(nat \<times> byte) list \<Rightarrow> byte list \<Rightarrow> byte list" where
  "put_bytes kvs buf = foldl (\<lambda>b kv. b[fst kv := snd kv]) buf kvs"

text \<open>
  A standard-layout texture of 2 by 1 pixels in palette mode: version 1, one palette
  (\<open>0x30\<close>) of one colour (\<open>0x34\<close>), bit depth 8 (\<open>0x38\<close>), width 2 (\<open>0x3C\<close>), height 1
  (\<open>0x40\<close>), 2 bytes per row (\<open>0x44\<close>), palette flag 1 (\<open>0x4C\<close>), 8 bits per index
  (\<open>0x50\<close>), palette size 1 (\<open>0x58\<close>), 8 bits and 1 byte per pixel (\<open>0x64\<close>, \<open>0x68\<close>); all
  other header bytes 0. Then the palette entry B=10, G=20, R=30, A=255 and two pixel
  bytes 0.
\<close>

definition tex_palette_2x1 :: "byte list" where
  "tex_palette_2x1 =
     put_bytes [(0x00, 1), (0x30, 1), (0x34, 1), (0x38, 8), (0x3C, 2), (0x40, 1), (0x44, 2),
                (0x4C, 1), (0x50, 8), (0x58, 1), (0x64, 8), (0x68, 1)] (replicate 0xEC 0)
     @ [10, 20, 30, 255] @ [0, 0]"

text \<open>
  The same image in the alternative layout: the four bytes at \<open>0x2C\<close> are the palette
  count 1, and every later field sits 4 bytes earlier.
\<close>

definition tex_palette_2x1_alt :: "byte list" where
  "tex_palette_2x1_alt =
     put_bytes [(0x00, 1), (0x2C, 1), (0x30, 1), (0x34, 8), (0x38, 2), (0x3C, 1), (0x40, 2),
                (0x48, 1), (0x4C, 8), (0x54, 1), (0x60, 8), (0x64, 1)] (replicate 0xE8 0)
     @ [10, 20, 30, 255] @ [0, 0]"

text \<open>The image \<open>tex_palette_2x1\<close> with its width set to 5000 (\<open>0x1388\<close>).\<close>

definition tex_wide :: "byte list" where
  "tex_wide = put_bytes [(0x3C, 0x88), (0x3D, 0x13)] tex_palette_2x1"

text \<open>The image \<open>tex_palette_2x1\<close> without its last pixel byte.\<close>

definition tex_cut :: "byte list" where
  "tex_cut = take 241 tex_palette_2x1"

text \<open>
  The image \<open>tex_palette_2x1\<close> with the color-key-array flag set (\<open>0xBC\<close>); the one
  color-key byte that its palette count asks for is not in the buffer.
\<close>

definition tex_colorkey_short :: "byte list" where
  "tex_colorkey_short = put_bytes [(0xBC, 1)] tex_palette_2x1"

text \<open>What the constructor returns for \<open>tex_palette_2x1\<close>.\<close>

definition decoded_palette_2x1 :: TexData where
  "decoded_palette_2x1 =
     \<lparr> version = 1, colorKeyFlag = 0, minBitsPerColor = 0, maxBitsPerColor = 0,
       minAlphaBits = 0, maxAlphaBits = 0, minBitsPerPixel = 0, maxBitsPerPixel = 0,
       numPalettes = 1, colorsPerPalette = 1, bitDepth = 8, width = 2, height = 1,
       bytesPerRow = 2, paletteFlag = 1, bitsPerIndex = 8, indexedTo8bit = 0,
       paletteSize = 1, colorsPerPaletteAgain = 0, bitsPerPixel = 8, bytesPerPixel = 1,
       pixelFormat =
         \<lparr> redBits = 0, greenBits = 0, blueBits = 0, alphaBits = 0,
           redMask = 0, greenMask = 0, blueMask = 0, alphaMask = 0,
           redShift = 0, greenShift = 0, blueShift = 0, alphaShift = 0,
           redLoss = 0, greenLoss = 0, blueLoss = 0, alphaLoss = 0,
           redMax = 0, greenMax = 0, blueMax = 0, alphaMax = 0 \<rparr>,
       colorKeyArrayFlag = 0, referenceAlpha = 0, paletteIndex = None,
       palette = Some [10, 20, 30, 255], pixels = [0, 0], colorKeyArray = None,
       formatIndicator = 0, headerSize = 0xEC \<rparr>"

text \<open>The structure with every header field 0 and no payload, for writing decoded examples as updates.\<close>

definition zero_tex :: TexData where
  "zero_tex =
     \<lparr> version = 0, colorKeyFlag = 0, minBitsPerColor = 0, maxBitsPerColor = 0,
       minAlphaBits = 0, maxAlphaBits = 0, minBitsPerPixel = 0, maxBitsPerPixel = 0,
       numPalettes = 0, colorsPerPalette = 0, bitDepth = 0, width = 0, height = 0,
       bytesPerRow = 0, paletteFlag = 0, bitsPerIndex = 0, indexedTo8bit = 0,
       paletteSize = 0, colorsPerPaletteAgain = 0, bitsPerPixel = 0, bytesPerPixel = 0,
       pixelFormat =
         \<lparr> redBits = 0, greenBits = 0, blueBits = 0, alphaBits = 0,
           redMask = 0, greenMask = 0, blueMask = 0, alphaMask = 0,
           redShift = 0, greenShift = 0, blueShift = 0, alphaShift = 0,
           redLoss = 0, greenLoss = 0, blueLoss = 0, alphaLoss = 0,
           redMax = 0, greenMax = 0, blueMax = 0, alphaMax = 0 \<rparr>,
       colorKeyArrayFlag = 0, referenceAlpha = 0, paletteIndex = None,
       palette = None, pixels = [], colorKeyArray = None,
       formatIndicator = 0, headerSize = 0xEC \<rparr>"

text \<open>
  A standard-layout palette-mode texture of 1 by 1 pixels whose palette count (\<open>0x30\<close>) is
  0: colors per palette 1 (\<open>0x34\<close>), palette size 2 (\<open>0x58\<close>), palette entries
  B=10, G=20, R=30, A=255 and B=40, G=50, R=60, A=255, pixel byte 0; and what the
  constructor returns for it.
\<close>

definition tex_no_count :: "byte list" where
  "tex_no_count =
     put_bytes [(0x00, 1), (0x34, 1), (0x38, 8), (0x3C, 1), (0x40, 1), (0x44, 1),
                (0x4C, 1), (0x50, 8), (0x58, 2), (0x64, 8), (0x68, 1)] (replicate 0xEC 0)
     @ [10, 20, 30, 255, 40, 50, 60, 255] @ [0]"

definition decoded_no_count :: TexData where
  "decoded_no_count =
     zero_tex\<lparr> version := 1, colorsPerPalette := 1, bitDepth := 8, width := 1, height := 1,
               bytesPerRow := 1, paletteFlag := 1, bitsPerIndex := 8, paletteSize := 2,
               bitsPerPixel := 8, bytesPerPixel := 1,
               palette := Some [10, 20, 30, 255, 40, 50, 60, 255], pixels := [0] \<rparr>"

text \<open>
  A standard-layout direct-color texture of 1 by 1 pixels with 3 bytes per pixel
  (\<open>0x68\<close>), pixel bytes 1, 2, 3; and what the constructor returns for it.
\<close>

definition tex_direct_bpp3 :: "byte list" where
  "tex_direct_bpp3 =
     put_bytes [(0x00, 1), (0x38, 24), (0x3C, 1), (0x40, 1), (0x44, 3), (0x64, 24), (0x68, 3)]
       (replicate 0xEC 0)
     @ [1, 2, 3]"

definition decoded_direct_bpp3 :: TexData where
  "decoded_direct_bpp3 =
     zero_tex\<lparr> version := 1, bitDepth := 24, width := 1, height := 1, bytesPerRow := 3,
               bitsPerPixel := 24, bytesPerPixel := 3, pixels := [1, 2, 3] \<rparr>"

text \<open>
  A standard-layout direct-color texture of 1 by 1 pixels with 2 bytes per pixel: 5 bits
  each of red (\<open>0x6C\<close>), green and blue, red mask \<open>0x7C00\<close> (\<open>0x7C\<close>), green mask \<open>0x03E0\<close>
  (\<open>0x80\<close>), blue mask \<open>0x1F\<close> (\<open>0x84\<close>), red shift 10 (\<open>0x8C\<close>), green shift 5 (\<open>0x90\<close>), no
  alpha bits; pixel bytes \<open>0x00, 0x7C\<close>, the value \<open>0x7C00\<close>. And what the constructor
  returns for it.
\<close>

definition tex_direct_16 :: "byte list" where
  "tex_direct_16 =
     put_bytes [(0x00, 1), (0x38, 16), (0x3C, 1), (0x40, 1), (0x44, 2), (0x64, 16), (0x68, 2),
                (0x6C, 5), (0x70, 5), (0x74, 5), (0x7D, 0x7C), (0x80, 0xE0), (0x81, 0x03),
                (0x84, 0x1F), (0x8C, 10), (0x90, 5)]
       (replicate 0xEC 0)
     @ [0x00, 0x7C]"

definition decoded_direct_16 :: TexData where
  "decoded_direct_16 =
     zero_tex\<lparr> version := 1, bitDepth := 16, width := 1, height := 1, bytesPerRow := 2,
               bitsPerPixel := 16, bytesPerPixel := 2,
               pixelFormat := (pixelFormat zero_tex)
                 \<lparr> redBits := 5, greenBits := 5, blueBits := 5,
                   redMask := 0x7C00, greenMask := 0x3E0, blueMask := 0x1F,
                   redShift := 10, greenShift := 5 \<rparr>,
               pixels := [0x00, 0x7C] \<rparr>"

section \<open>Field skeleton (rsdfile.ts, class HRCFile)\<close>

text \<open>
  \<open>HRCBone.length\<close> is a JavaScript float; its values are left abstract as the type
  parameter \<open>'f\<close>. The field is called \<open>length_bone\<close> since \<open>length\<close> is the list function.
\<close>

record 'f HRCBone =
  name :: string
  parentName :: string
  length_bone :: 'f
  resourceCount :: int
  resources :: "string list"

record 'f HRCData =
  headerBlock :: 'f
  skeletonName :: string
  boneCount :: 'f
  bones :: "'f HRCBone list"

text \<open>
  \<open>String.prototype.toLowerCase\<close> on the characters a decoded text can hold: the ASCII
  capitals, the accented capitals \<open>0xC0..0xDE\<close> (without the multiplication sign
  \<open>0xD7\<close>), and the four capitals that the decoder produces from the bytes \<open>0x8A\<close>, \<open>0x8C\<close>,
  \<open>0x8E\<close> and \<open>0x9F\<close>, whose small letters come from the bytes \<open>0x9A\<close>, \<open>0x9C\<close>, \<open>0x9E\<close>
  and \<open>0xFF\<close>. Every other character is its own lower case.
\<close>

definition toLowerCase_char :: "char \<Rightarrow> char" where
  "toLowerCase_char c =
     (let n = (of_char c :: nat) in
      if 65 \<le> n \<and> n \<le> 90 then char_of (n + 32)
      else if 192 \<le> n \<and> n \<le> 222 \<and> n \<noteq> 215 then char_of (n + 32)
      else if n = 138 \<or> n = 140 \<or> n = 142 then char_of (n + 16)
      else if n = 159 then char_of (255 :: nat)
      else c)"

definition toLowerCase :: "string \<Rightarrow> string" where
  "toLowerCase s = map toLowerCase_char s"

text \<open>
  \<open>Array.prototype.findIndex\<close>: the index of the first element satisfying the predicate,
  and \<open>-1\<close> when there is none. The loop runs over the indices \<open>i, i + 1, ...\<close>.
\<close>

fun findIndex_from :: "int \<Rightarrow> ('a \<Rightarrow> bool) \<Rightarrow> 'a list \<Rightarrow> int" where
  "findIndex_from i P [] = -1"
| "findIndex_from i P (x # xs) = (if P x then i else findIndex_from (i + 1) P xs)"

definition findIndex :: "('a \<Rightarrow> bool) \<Rightarrow> 'a list \<Rightarrow> int" where
  "findIndex P xs = findIndex_from 0 P xs"

text \<open>
  \<open>getBoneParentIndex(boneIndex)\<close>. \<open>this.data.bones[boneIndex]\<close> is \<open>undefined\<close> for an index
  outside the array, and then the method returns \<open>-1\<close>.
\<close>

definition getBoneParentIndex :: "'f HRCData \<Rightarrow> int \<Rightarrow> int" where
  "getBoneParentIndex d boneIndex =
     (if boneIndex < 0 \<or> int (length (bones d)) \<le> boneIndex then -1
      else
        let bone = bones d ! nat boneIndex in
        if toLowerCase (parentName bone) = ''root'' then -1
        else findIndex (\<lambda>b. toLowerCase (name b) = toLowerCase (parentName bone)) (bones d))"

definition hip_knee :: "unit HRCData" where
  "hip_knee =
     \<lparr> headerBlock = (), skeletonName = ''demo'', boneCount = (),
       bones =
         [ \<lparr> name = ''Hip'', parentName = ''root'', length_bone = (),
             resourceCount = 0, resources = [] \<rparr>,
           \<lparr> name = ''Knee'', parentName = ''Hip'', length_bone = (),
             resourceCount = 0, resources = [] \<rparr> ] \<rparr>"

definition shouting_skeleton :: "unit HRCData" where
  "shouting_skeleton =
     \<lparr> headerBlock = (), skeletonName = ''demo'', boneCount = (),
       bones =
         [ \<lparr> name = ''HIP'', parentName = ''Root'', length_bone = (),
             resourceCount = 0, resources = [] \<rparr>,
           \<lparr> name = ''Knee'', parentName = ''hip'', length_bone = (),
             resourceCount = 0, resources = [] \<rparr> ] \<rparr>"

section \<open>Properties of the skeleton\<close>

lemma findIndex_from_none:
  "\<forall>x \<in> set xs. \<not> P x \<Longrightarrow> findIndex_from i P xs = -1"
  by (induction xs arbitrary: i) auto

lemma findIndex_from_some:
  "\<exists>x \<in> set xs. P x \<Longrightarrow>
     i \<le> findIndex_from i P xs \<and> findIndex_from i P xs < i + int (length xs)
     \<and> P (xs ! nat (findIndex_from i P xs - i))
     \<and> (\<forall>j < nat (findIndex_from i P xs - i). \<not> P (xs ! j))"
proof (induction xs arbitrary: i)
  case Nil
  then show ?case by simp
next
  case (Cons x xs)
  show ?case
  proof (cases "P x")
    case True
    then show ?thesis by simp
  next
    case False
    with Cons.prems have ex: "\<exists>y \<in> set xs. P y" by auto
    from Cons.IH [OF ex, of "i + 1"]
    have ih: "i + 1 \<le> findIndex_from (i + 1) P xs"
      "findIndex_from (i + 1) P xs < i + 1 + int (length xs)"
      "P (xs ! nat (findIndex_from (i + 1) P xs - (i + 1)))"
      "\<forall>j < nat (findIndex_from (i + 1) P xs - (i + 1)). \<not> P (xs ! j)"
      by auto
    define r where "r = findIndex_from (i + 1) P xs"
    have eq: "nat (r - i) = Suc (nat (r - (i + 1)))"
      using ih(1) by (simp add: r_def nat_diff_distrib Suc_nat_eq_nat_zadd1)
    have "\<forall>j < nat (r - i). \<not> P ((x # xs) ! j)"
    proof (intro allI impI)
      fix j assume "j < nat (r - i)"
      then show "\<not> P ((x # xs) ! j)"
        using False ih(4) eq by (cases j) (auto simp: r_def)
    qed
    then show ?thesis
      using False ih eq by (simp add: r_def)
  qed
qed

text \<open>
  C9. For every skeleton and every index \<open>i\<close> of one of its bones, with \<open>p\<close> the bone's
  parent name: if \<open>p\<close> is "root" in any letter case the parent index is \<open>-1\<close>, whatever
  the bones are called; otherwise, if no bone's name equals \<open>p\<close> up to letter case the
  parent index is \<open>-1\<close> (no failure); otherwise the parent index is the index of the
  first bone whose name equals \<open>p\<close> up to letter case. For the bones "Hip" (parent
  "root") and "Knee" (parent "Hip"), "Knee" resolves to 0, the index of "Hip", and "Hip"
  resolves to \<open>-1\<close>.
\<close>

theorem getBoneParentIndex_resolves:
  assumes "0 \<le> i" and "i < int (length (bones d))"
  shows "(toLowerCase (parentName (bones d ! nat i)) = ''root''
            \<longrightarrow> getBoneParentIndex d i = -1)
       \<and> (toLowerCase (parentName (bones d ! nat i)) \<noteq> ''root''
            \<and> (\<forall>b \<in> set (bones d).
                  toLowerCase (name b) \<noteq> toLowerCase (parentName (bones d ! nat i)))
            \<longrightarrow> getBoneParentIndex d i = -1)
       \<and> (toLowerCase (parentName (bones d ! nat i)) \<noteq> ''root''
            \<and> (\<exists>b \<in> set (bones d).
                  toLowerCase (name b) = toLowerCase (parentName (bones d ! nat i)))
            \<longrightarrow> 0 \<le> getBoneParentIndex d i
              \<and> getBoneParentIndex d i < int (length (bones d))
              \<and> toLowerCase (name (bones d ! nat (getBoneParentIndex d i)))
                  = toLowerCase (parentName (bones d ! nat i))
              \<and> (\<forall>j < nat (getBoneParentIndex d i).
                    toLowerCase (name (bones d ! j))
                      \<noteq> toLowerCase (parentName (bones d ! nat i))))
       \<and> getBoneParentIndex hip_knee 1 = 0
       \<and> getBoneParentIndex hip_knee 0 = -1"
proof -
  let ?p = "toLowerCase (parentName (bones d ! nat i))"
  let ?P = "\<lambda>b::'a HRCBone. toLowerCase (name b) = ?p"
  have inr: "\<not> (i < 0 \<or> int (length (bones d)) \<le> i)"
    using assms by simp
  have root: "?p = ''root'' \<longrightarrow> getBoneParentIndex d i = -1"
    using inr by (simp add: getBoneParentIndex_def)
  have other: "?p \<noteq> ''root'' \<Longrightarrow> getBoneParentIndex d i = findIndex_from 0 ?P (bones d)"
    using inr by (simp add: getBoneParentIndex_def findIndex_def)
  have none: "?p \<noteq> ''root'' \<and> (\<forall>b \<in> set (bones d). \<not> ?P b)
                \<longrightarrow> getBoneParentIndex d i = -1"
    using other findIndex_from_none [of "bones d" ?P 0] by simp
  have some: "?p \<noteq> ''root'' \<and> (\<exists>b \<in> set (bones d). ?P b)
      \<longrightarrow> 0 \<le> getBoneParentIndex d i
        \<and> getBoneParentIndex d i < int (length (bones d))
        \<and> ?P (bones d ! nat (getBoneParentIndex d i))
        \<and> (\<forall>j < nat (getBoneParentIndex d i). \<not> ?P (bones d ! j))"
    using other findIndex_from_some [of "bones d" ?P 0] by simp
  have ex1: "getBoneParentIndex hip_knee 1 = 0" by code_simp
  have ex0: "getBoneParentIndex hip_knee 0 = -1" by code_simp
  show ?thesis
    using root none some ex1 ex0 by blast
qed

theorem getBoneParentIndex_resolves_witness:
  "(0::int) \<le> 1 \<and> (1::int) < int (length (bones shouting_skeleton))
   \<and> toLowerCase (parentName (bones shouting_skeleton ! nat 1)) \<noteq> ''root''
   \<and> (\<exists>b \<in> set (bones shouting_skeleton).
         toLowerCase (name b) = toLowerCase (parentName (bones shouting_skeleton ! nat 1)))
   \<and> toLowerCase (name (bones shouting_skeleton ! nat (getBoneParentIndex shouting_skeleton 1)))
       = toLowerCase (parentName (bones shouting_skeleton ! nat 1))
   \<and> getBoneParentIndex shouting_skeleton 1 = 0
   \<and> getBoneParentIndex shouting_skeleton 0 = -1"
proof -
  have h1: "(0::int) \<le> 1" by simp
  have h2: "(1::int) < int (length (bones shouting_skeleton))" by code_simp
  have h3: "toLowerCase (parentName (bones shouting_skeleton ! nat 1)) \<noteq> ''root''"
    by code_simp
  have h4: "\<exists>b \<in> set (bones shouting_skeleton).
         toLowerCase (name b) = toLowerCase (parentName (bones shouting_skeleton ! nat 1))"
    by code_simp
  have v1: "getBoneParentIndex shouting_skeleton 1 = 0" by code_simp
  have v0: "getBoneParentIndex shouting_skeleton 0 = -1" by code_simp
  show ?thesis
    using getBoneParentIndex_resolves [OF h1 h2] h1 h2 h3 h4 v1 v0 by blast
qed

section \<open>Properties of the animation parser\<close>

lemma read_rotation_Some:
  "offset + 12 \<le> length view \<Longrightarrow> \<exists>r. read_rotation view offset = Some r"
  by (simp add: read_rotation_def getFloat32_def getUint32_def)

lemma read_translation_Some:
  "offset + 12 \<le> length view \<Longrightarrow> \<exists>r. read_translation view offset = Some r"
  by (simp add: read_translation_def getFloat32_def getUint32_def)

lemma boneRotations_loop_length:
  "boneRotations_loop view n offset = Some (rs, offset')
     \<Longrightarrow> length rs = n \<and> offset' = offset + 12 * n"
proof (induction n arbitrary: offset rs)
  case 0
  then show ?case by simp
next
  case (Suc n)
  then show ?case
    by (fastforce split: Option.bind_splits prod.splits)
qed

lemma boneRotations_loop_Some:
  "offset + 12 * n \<le> length view \<Longrightarrow> \<exists>rs. boneRotations_loop view n offset = Some (rs, offset + 12 * n)"
proof (induction n arbitrary: offset)
  case 0
  then show ?case by simp
next
  case (Suc n)
  from Suc.prems obtain r where r: "read_rotation view offset = Some r"
    using read_rotation_Some [of offset view] by auto
  from Suc.prems have "offset + 12 + 12 * n \<le> length view" by simp
  from Suc.IH [OF this] obtain rs
    where rs: "boneRotations_loop view n (offset + 12) = Some (rs, offset + 12 + 12 * n)"
    by blast
  show ?case using r rs by simp
qed

lemma frames_loop_length:
  "frames_loop view nb n offset = Some fs
     \<Longrightarrow> length fs = n
       \<and> (\<forall>f \<in> set fs. length (boneRotations f) = (if nb > 0 then nat nb else 1))"
proof (induction n arbitrary: offset fs)
  case 0
  then show ?case by simp
next
  case (Suc n)
  from Suc.prems obtain rot tr brs offset' rest where
    b: "boneRotations_loop view (if nb > 0 then nat nb else 1) (offset + 24) = Some (brs, offset')"
    and r: "frames_loop view nb n offset' = Some rest"
    and fs: "fs = \<lparr> rootRotation = rot, rootTranslation = tr, boneRotations = brs \<rparr> # rest"
    by (auto split: Option.bind_splits prod.splits)
  from boneRotations_loop_length [OF b]
  have "length brs = (if nb > 0 then nat nb else 1)" by simp
  with Suc.IH [OF r] fs show ?case by simp
qed

lemma frames_loop_Some:
  "offset + n * (24 + 12 * (if nb > 0 then nat nb else 1)) \<le> length view
     \<Longrightarrow> \<exists>fs. frames_loop view nb n offset = Some fs"
proof (induction n arbitrary: offset)
  case 0
  then show ?case by simp
next
  case (Suc n)
  let ?bc = "if nb > 0 then nat nb else 1"
  from Suc.prems have len: "offset + 24 + 12 * ?bc + n * (24 + 12 * ?bc) \<le> length view"
    by (simp add: algebra_simps)
  then have "offset + 12 \<le> length view" and "offset + 12 + 12 \<le> length view"
    and "offset + 24 + 12 * ?bc \<le> length view"
    by linarith+
  then obtain rot tr brs where
    rot: "read_rotation view offset = Some rot"
    and tr: "read_translation view (offset + 12) = Some tr"
    and brs: "boneRotations_loop view ?bc (offset + 24) = Some (brs, offset + 24 + 12 * ?bc)"
    using read_rotation_Some [of offset view] read_translation_Some [of "offset + 12" view]
      boneRotations_loop_Some [of "offset + 24" ?bc view]
    by blast
  from Suc.IH [OF len] obtain rest
    where rest: "frames_loop view nb n (offset + 24 + 12 * ?bc) = Some rest"
    by blast
  show ?case using rot tr brs rest by simp
qed

lemma parse_anim_frames:
  "parse_anim view = Some d
     \<Longrightarrow> getInt32 view 4 = Some (nFrames d) \<and> getInt32 view 8 = Some (nBones d)
       \<and> frames_loop view (nBones d) (nat (nFrames d)) 36 = Some (frames d)"
  by (auto simp: parse_anim_def split: Option.bind_splits)

lemma parse_anim_Some:
  assumes "getInt32 view 4 = Some nf" and "getInt32 view 8 = Some nb"
    and "15 \<le> length view"
    and "36 + nat nf * (24 + 12 * (if nb > 0 then nat nb else 1)) \<le> length view"
  shows "\<exists>d. parse_anim view = Some d"
proof -
  from assms(4) obtain fs where "frames_loop view nb (nat nf) 36 = Some fs"
    using frames_loop_Some [of 36 "nat nf" nb view] by blast
  moreover from assms(3) have "getInt32 view 0 \<noteq> None"
    by (simp add: getInt32_def getUint32_def)
  moreover from assms(3) have "getUint8 view 12 \<noteq> None" "getUint8 view 13 \<noteq> None"
    "getUint8 view 14 \<noteq> None"
    by (simp_all add: getUint8_def)
  ultimately show ?thesis
    using assms(1,2) by (auto simp: parse_anim_def)
qed

lemma bone_count_max: "(if nb > 0 then nat nb else 1) = nat (max nb 1)"
  by (cases "nb > 0") (auto simp: max_def)

lemma boneRotations_loop_nth:
  "boneRotations_loop view n offset = Some (rs, offset')
     \<Longrightarrow> k < n \<Longrightarrow> read_rotation view (offset + 12 * k) = Some (rs ! k)"
proof (induction n arbitrary: offset rs k)
  case 0
  then show ?case by simp
next
  case (Suc n)
  from Suc.prems(1) obtain r rs' where
    r: "read_rotation view offset = Some r"
    and rest: "boneRotations_loop view n (offset + 12) = Some (rs', offset')"
    and rs: "rs = r # rs'"
    by (auto split: Option.bind_splits prod.splits)
  show ?case
  proof (cases k)
    case 0
    with r rs show ?thesis by simp
  next
    case (Suc k')
    with Suc.prems(2) have "k' < n" by simp
    from Suc.IH [OF rest this] rs Suc show ?thesis
      by (simp add: algebra_simps)
  qed
qed

lemma frames_loop_nth:
  "frames_loop view nb n offset = Some fs \<Longrightarrow> j < n \<Longrightarrow> k < nat (max nb 1)
     \<Longrightarrow> read_rotation view (offset + j * (24 + 12 * nat (max nb 1)) + 24 + 12 * k)
           = Some (boneRotations (fs ! j) ! k)"
proof (induction n arbitrary: offset fs j)
  case 0
  then show ?case by simp
next
  case (Suc n)
  let ?bc = "nat (max nb 1)"
  from Suc.prems(1) obtain rot tr brs offset' rest where
    b: "boneRotations_loop view ?bc (offset + 24) = Some (brs, offset')"
    and r: "frames_loop view nb n offset' = Some rest"
    and fs: "fs = \<lparr> rootRotation = rot, rootTranslation = tr, boneRotations = brs \<rparr> # rest"
    by (auto simp: bone_count_max split: Option.bind_splits prod.splits)
  from boneRotations_loop_length [OF b] have off: "offset' = offset + 24 + 12 * ?bc"
    by simp
  show ?case
  proof (cases j)
    case 0
    from boneRotations_loop_nth [OF b Suc.prems(3)] fs 0 show ?thesis
      by (simp add: algebra_simps)
  next
    case (Suc j')
    with Suc.prems(2) have "j' < n" by simp
    from Suc.IH [OF r this Suc.prems(3)] fs Suc off show ?thesis
      by (simp add: algebra_simps)
  qed
qed

text \<open>
  C7. Whenever the animation parser returns, the frame and bone counts of the result are
  the signed 32-bit integers at offsets 4 and 8 of the buffer, it returns as many frames
  as that frame count (none for a negative count), and every frame carries exactly
  \<open>max(boneCount, 1)\<close> bone rotations: rotation \<open>k\<close> of frame \<open>j\<close> is the triple read at
  offset \<open>36 + j (24 + 12 max(boneCount, 1)) + 24 + 12 k\<close>. The parser returns on every
  buffer of at least 15 bytes that is long enough for the frames its header declares.
  In particular, on every buffer of at least 108 bytes whose header declares 2 frames and
  0 bones the parser returns, with 2 frames of exactly 1 bone rotation each.
\<close>

theorem parse_anim_bone_rotations:
  "(\<forall>d. parse_anim view = Some d \<longrightarrow>
       getInt32 view 4 = Some (nFrames d) \<and> getInt32 view 8 = Some (nBones d)
       \<and> length (frames d) = nat (nFrames d)
       \<and> (\<forall>f \<in> set (frames d). length (boneRotations f) = nat (max (nBones d) 1))
       \<and> (\<forall>j < nat (nFrames d). \<forall>k < nat (max (nBones d) 1).
            read_rotation view (36 + j * (24 + 12 * nat (max (nBones d) 1)) + 24 + 12 * k)
              = Some (boneRotations (frames d ! j) ! k)))
   \<and> (\<forall>nf nb. getInt32 view 4 = Some nf \<and> getInt32 view 8 = Some nb
         \<and> 15 \<le> length view
         \<and> 36 + nat nf * (24 + 12 * nat (max nb 1)) \<le> length view \<longrightarrow>
       (\<exists>d. parse_anim view = Some d \<and> nFrames d = nf \<and> nBones d = nb
          \<and> length (frames d) = nat nf
          \<and> (\<forall>f \<in> set (frames d). length (boneRotations f) = nat (max nb 1))))
   \<and> (getInt32 view 4 = Some 2 \<and> getInt32 view 8 = Some 0 \<and> 108 \<le> length view \<longrightarrow>
       (\<exists>d. parse_anim view = Some d \<and> nFrames d = 2 \<and> nBones d = 0
          \<and> length (frames d) = 2
          \<and> (\<forall>f \<in> set (frames d). length (boneRotations f) = 1)))"
proof -
  have general: "getInt32 view 4 = Some (nFrames d) \<and> getInt32 view 8 = Some (nBones d)
       \<and> length (frames d) = nat (nFrames d)
       \<and> (\<forall>f \<in> set (frames d). length (boneRotations f) = nat (max (nBones d) 1))
       \<and> (\<forall>j < nat (nFrames d). \<forall>k < nat (max (nBones d) 1).
            read_rotation view (36 + j * (24 + 12 * nat (max (nBones d) 1)) + 24 + 12 * k)
              = Some (boneRotations (frames d ! j) ! k))"
    if p: "parse_anim view = Some d" for d
  proof -
    from parse_anim_frames [OF p]
    have h4: "getInt32 view 4 = Some (nFrames d)" and h8: "getInt32 view 8 = Some (nBones d)"
      and fl: "frames_loop view (nBones d) (nat (nFrames d)) 36 = Some (frames d)"
      by blast+
    from frames_loop_length [OF fl]
    have len: "length (frames d) = nat (nFrames d)"
      and each: "\<forall>f \<in> set (frames d). length (boneRotations f) = nat (max (nBones d) 1)"
      by (simp_all add: bone_count_max)
    have nth: "\<forall>j < nat (nFrames d). \<forall>k < nat (max (nBones d) 1).
            read_rotation view (36 + j * (24 + 12 * nat (max (nBones d) 1)) + 24 + 12 * k)
              = Some (boneRotations (frames d ! j) ! k)"
      using frames_loop_nth [OF fl] by blast
    from h4 h8 len each nth show ?thesis by (intro conjI)
  qed
  have succeeds: "\<exists>d. parse_anim view = Some d \<and> nFrames d = nf \<and> nBones d = nb
          \<and> length (frames d) = nat nf
          \<and> (\<forall>f \<in> set (frames d). length (boneRotations f) = nat (max nb 1))"
    if h: "getInt32 view 4 = Some nf" "getInt32 view 8 = Some nb" "15 \<le> length view"
      "36 + nat nf * (24 + 12 * nat (max nb 1)) \<le> length view" for nf nb
  proof -
    from h(4) have "36 + nat nf * (24 + 12 * (if nb > 0 then nat nb else 1)) \<le> length view"
      by (simp only: bone_count_max)
    from parse_anim_Some [OF h(1,2,3) this] obtain d where p: "parse_anim view = Some d"
      by blast
    from general [OF p] h(1,2) have nf: "nFrames d = nf" and nb: "nBones d = nb"
      by simp_all
    from general [OF p] nf nb
    have "length (frames d) = nat nf"
      and "\<forall>f \<in> set (frames d). length (boneRotations f) = nat (max nb 1)"
      by simp_all
    with p nf nb show ?thesis by blast
  qed
  have particular: "\<exists>d. parse_anim view = Some d \<and> nFrames d = 2 \<and> nBones d = 0
          \<and> length (frames d) = 2
          \<and> (\<forall>f \<in> set (frames d). length (boneRotations f) = 1)"
    if h: "getInt32 view 4 = Some 2 \<and> getInt32 view 8 = Some 0 \<and> 108 \<le> length view"
  proof -
    from h have "getInt32 view 4 = Some 2" "getInt32 view 8 = Some 0" "15 \<le> length view"
      "36 + nat 2 * (24 + 12 * nat (max 0 1)) \<le> length view"
      by simp_all
    from succeeds [OF this] show ?thesis by simp
  qed
  from general succeeds particular show ?thesis by blast
qed

theorem parse_anim_bone_rotations_witness:
  "getInt32 two_frames_no_bones 4 = Some 2 \<and> getInt32 two_frames_no_bones 8 = Some 0
   \<and> 108 \<le> length two_frames_no_bones
   \<and> (\<exists>d. parse_anim two_frames_no_bones = Some d \<and> nFrames d = 2 \<and> nBones d = 0
        \<and> length (frames d) = 2
        \<and> (\<forall>f \<in> set (frames d). length (boneRotations f) = 1))
   \<and> getInt32 one_frame_five_bones 4 = Some 1 \<and> getInt32 one_frame_five_bones 8 = Some 5
   \<and> 15 \<le> length one_frame_five_bones
   \<and> 36 + nat 1 * (24 + 12 * nat (max 5 1)) \<le> length one_frame_five_bones
   \<and> (\<exists>d. parse_anim one_frame_five_bones = Some d \<and> nFrames d = 1 \<and> nBones d = 5
        \<and> length (frames d) = nat 1
        \<and> (\<forall>f \<in> set (frames d). length (boneRotations f) = nat (max 5 1)))"
proof -
  have h1: "getInt32 two_frames_no_bones 4 = Some 2" by code_simp
  have h2: "getInt32 two_frames_no_bones 8 = Some 0" by code_simp
  have h3: "108 \<le> length two_frames_no_bones" by code_simp
  have g1: "getInt32 one_frame_five_bones 4 = Some 1" by code_simp
  have g2: "getInt32 one_frame_five_bones 8 = Some 5" by code_simp
  have g3: "15 \<le> length one_frame_five_bones" by code_simp
  have g4: "36 + nat 1 * (24 + 12 * nat (max 5 1)) \<le> length one_frame_five_bones"
    by code_simp
  note T = parse_anim_bone_rotations [of two_frames_no_bones]
  note U = parse_anim_bone_rotations [of one_frame_five_bones]
  have a: "\<exists>d. parse_anim two_frames_no_bones = Some d \<and> nFrames d = 2 \<and> nBones d = 0
        \<and> length (frames d) = 2
        \<and> (\<forall>f \<in> set (frames d). length (boneRotations f) = 1)"
    by (rule T [THEN conjunct2, THEN conjunct2, rule_format]) (intro conjI h1 h2 h3)
  have b: "\<exists>d. parse_anim one_frame_five_bones = Some d \<and> nFrames d = 1 \<and> nBones d = 5
        \<and> length (frames d) = nat 1
        \<and> (\<forall>f \<in> set (frames d). length (boneRotations f) = nat (max 5 1))"
    by (rule U [THEN conjunct2, THEN conjunct1, rule_format]) (intro conjI g1 g2 g3 g4)
  from h1 h2 h3 a g1 g2 g3 g4 b show ?thesis by (intro conjI)
qed

section \<open>Properties of the resource descriptor parser\<close>

lemma parse_line_unrecognised: "\<not> recognised line \<Longrightarrow> parse_line data line = data"
  by (simp add: recognised_def parse_line_def)

lemma foldl_parse_line_unrecognised:
  "\<forall>l \<in> set ls. \<not> recognised l \<Longrightarrow> foldl parse_line data ls = data"
  by (induction ls arbitrary: data) (simp_all add: parse_line_unrecognised)

lemma startsWith_append: "startsWith s p \<Longrightarrow> \<exists>r. s = p @ r"
  unfolding startsWith_def by (metis append_take_drop_id)

lemma startsWith_NTEX:
  assumes "startsWith line ''NTEX=''"
  shows "\<not> startsWith line ''@RSD''" and "\<not> startsWith line ''PLY=''"
    and "\<not> startsWith line ''MAT=''" and "\<not> startsWith line ''GRP=''"
proof -
  from startsWith_append [OF assms] obtain r where "line = ''NTEX='' @ r" by blast
  then show "\<not> startsWith line ''@RSD''" and "\<not> startsWith line ''PLY=''"
    and "\<not> startsWith line ''MAT=''" and "\<not> startsWith line ''GRP=''"
    by (simp_all add: startsWith_def)
qed

text \<open>
  C8. The parser is a total function from buffers to descriptors: it has no error
  result, since decoding, splitting, trimming, prefix tests, \<open>substring\<close>, \<open>parseInt\<close>
  and \<open>match\<close> never throw. On the empty buffer it returns the descriptor with all
  string fields empty, texture count 0 and no textures; so it does on every buffer none
  of whose lines starts with a known prefix (garbage). A line \<open>NTEX=...\<close> whose value
  does not parse as a decimal integer sets the texture count to 0 and changes nothing
  else.
\<close>

theorem RSDFile_no_error_path:
  "RSDFile [] = \<lparr> id_rsd = [], plyFile = [], matFile = [], grpFile = [],
                  numTextures = 0, textures = [] \<rparr>
   \<and> ((\<forall>l \<in> set (lines_of (decode_ascii buffer)). \<not> recognised l) \<longrightarrow>
        RSDFile buffer = \<lparr> id_rsd = [], plyFile = [], matFile = [], grpFile = [],
                           numTextures = 0, textures = [] \<rparr>)
   \<and> (startsWith line ''NTEX='' \<and> parseInt (drop 5 line) = None \<longrightarrow>
        parse_line data line = data\<lparr>numTextures := 0\<rparr>)"
proof (intro conjI impI)
  show "RSDFile [] = \<lparr> id_rsd = [], plyFile = [], matFile = [], grpFile = [],
                  numTextures = 0, textures = [] \<rparr>"
    by code_simp
next
  assume "\<forall>l \<in> set (lines_of (decode_ascii buffer)). \<not> recognised l"
  then have "foldl parse_line empty_rsd (lines_of (decode_ascii buffer)) = empty_rsd"
    by (rule foldl_parse_line_unrecognised)
  then show "RSDFile buffer = \<lparr> id_rsd = [], plyFile = [], matFile = [], grpFile = [],
                           numTextures = 0, textures = [] \<rparr>"
    by (simp add: RSDFile_def parse_rsd_def empty_rsd_def)
next
  assume h: "startsWith line ''NTEX='' \<and> parseInt (drop 5 line) = None"
  then have n: "startsWith line ''NTEX=''" and p: "parseInt (drop 5 line) = None"
    by simp_all
  show "parse_line data line = data\<lparr>numTextures := 0\<rparr>"
    using startsWith_NTEX [OF n] n p by (simp add: parse_line_def)
qed

theorem RSDFile_no_error_path_witness:
  "filter recognised (lines_of (decode_ascii garbage_rsd)) = []
   \<and> startsWith ''NTEX=abc'' ''NTEX='' \<and> parseInt (drop 5 ''NTEX=abc'') = None
   \<and> RSDFile garbage_rsd = \<lparr> id_rsd = [], plyFile = [], matFile = [], grpFile = [],
                              numTextures = 0, textures = [] \<rparr>
   \<and> parse_line \<lparr> id_rsd = ''@RSD940102'', plyFile = [], matFile = [], grpFile = [],
                   numTextures = 7, textures = [] \<rparr> ''NTEX=abc''
       = \<lparr> id_rsd = ''@RSD940102'', plyFile = [], matFile = [], grpFile = [],
           numTextures = 0, textures = [] \<rparr>"
proof -
  have h0: "filter recognised (lines_of (decode_ascii garbage_rsd)) = []"
    by code_simp
  then have h1: "\<forall>l \<in> set (lines_of (decode_ascii garbage_rsd)). \<not> recognised l"
    by (simp add: filter_empty_conv)
  have h2: "startsWith ''NTEX=abc'' ''NTEX=''" by code_simp
  have h3: "parseInt (drop 5 ''NTEX=abc'') = None" by code_simp
  from RSDFile_no_error_path [of garbage_rsd "''NTEX=abc''"
      "\<lparr> id_rsd = ''@RSD940102'', plyFile = [], matFile = [], grpFile = [],
         numTextures = 7, textures = [] \<rparr>"] h0 h1 h2 h3
  show ?thesis by simp
qed

section \<open>Properties of the texture header parser\<close>

lemma uint32le_eq:
  "uint32le buf off = (if off + 4 \<le> length buf then Some (u32at buf off, off + 4) else None)"
  by (simp add: uint32le_def getUint32_def u32at_def)

lemma pixelFormatParser_Some:
  "off + 80 \<le> length buf \<Longrightarrow> pixelFormatParser buf off = Some (pixelFormat_at buf off, off + 80)"
  by (simp add: pixelFormatParser_def uint32le_eq pixelFormat_at_def add.commute)

lemma pixelFormatParser_None:
  "\<not> off + 80 \<le> length buf \<Longrightarrow> pixelFormatParser buf off = None"
  by (simp add: pixelFormatParser_def uint32le_eq)

lemma texHeaderParser_std:
  "200 \<le> length buf \<Longrightarrow> u32at buf 44 = 0 \<Longrightarrow> texHeaderParser buf = Some (header_layout buf 0)"
  by (simp add: texHeaderParser_def uint32le_eq pixelFormatParser_Some skip_def seek_def header_layout_def)

lemma texHeaderParser_alt:
  "196 \<le> length buf \<Longrightarrow> u32at buf 44 \<noteq> 0 \<Longrightarrow> texHeaderParser buf = Some (header_layout buf 4)"
  by (simp add: texHeaderParser_def uint32le_eq pixelFormatParser_Some skip_def seek_def header_layout_def)

lemma texHeaderParser_short:
  "length buf < 48 \<Longrightarrow> texHeaderParser buf = None"
  by (simp add: texHeaderParser_def uint32le_eq skip_def seek_def)

lemma texHeaderParser_std_None:
  "length buf < 200 \<Longrightarrow> u32at buf 44 = 0 \<Longrightarrow> texHeaderParser buf = None"
  by (cases "108 + 80 \<le> length buf") (simp_all add: texHeaderParser_def uint32le_eq pixelFormatParser_Some pixelFormatParser_None skip_def seek_def)

lemma texHeaderParser_alt_None:
  "length buf < 196 \<Longrightarrow> u32at buf 44 \<noteq> 0 \<Longrightarrow> texHeaderParser buf = None"
  by (cases "104 + 80 \<le> length buf") (simp_all add: texHeaderParser_def uint32le_eq pixelFormatParser_Some pixelFormatParser_None skip_def seek_def)

lemma texHeaderParser_cases:
  "texHeaderParser buf =
     (if length buf < 48 then None
      else if u32at buf 0x2C = 0
        then (if 200 \<le> length buf then Some (header_layout buf 0) else None)
        else (if 196 \<le> length buf then Some (header_layout buf 4) else None))"
  using texHeaderParser_short [of buf] texHeaderParser_std [of buf]
    texHeaderParser_std_None [of buf] texHeaderParser_alt [of buf]
    texHeaderParser_alt_None [of buf]
  by (simp add: not_less not_le)

lemma texHeaderParser_Some_layout:
  assumes "texHeaderParser buf = Some h"
  shows "(u32at buf 0x2C = 0 \<and> h = header_layout buf 0)
       \<or> (u32at buf 0x2C \<noteq> 0 \<and> h = header_layout buf 4)"
  using assms texHeaderParser_cases [of buf] by (auto split: if_splits)

text \<open>
  C2. The header parser fails exactly when a read leaves the buffer. Otherwise the
  format indicator is the 32-bit value at \<open>0x2C\<close>. When it is zero the parse is the
  standard layout: the field is padding, \<open>numPalettes\<close> is read from \<open>0x30\<close>, the following
  fields from their standard offsets, and the header size is \<open>0xEC\<close>. When it is not zero
  the parse is the alternative layout: the bytes at \<open>0x2C\<close> are read again as
  \<open>numPalettes\<close>, every later field is read 4 bytes earlier, and the header size is
  \<open>0xE8\<close>.
\<close>

theorem texHeaderParser_layout:
  "texHeaderParser buf =
     (if length buf < 48 then None
      else if u32at buf 0x2C = 0
        then (if 200 \<le> length buf then Some (header_layout buf 0) else None)
        else (if 196 \<le> length buf then Some (header_layout buf 4) else None))
   \<and> (\<forall>h. texHeaderParser buf = Some h \<longrightarrow>
         formatIndicator h = u32at buf 0x2C
         \<and> (formatIndicator h = 0 \<longrightarrow>
               headerSize h = 0xEC \<and> numPalettes h = u32at buf 0x30
               \<and> colorsPerPalette h = u32at buf 0x34 \<and> h = header_layout buf 0)
         \<and> (formatIndicator h \<noteq> 0 \<longrightarrow>
               headerSize h = 0xE8 \<and> numPalettes h = u32at buf 0x2C
               \<and> colorsPerPalette h = u32at buf 0x30 \<and> h = header_layout buf 4))"
proof -
  note eq = texHeaderParser_cases [of buf]
  have fields: "formatIndicator (header_layout buf k) = u32at buf 0x2C"
    "headerSize (header_layout buf 0) = 0xEC" "headerSize (header_layout buf 4) = 0xE8"
    "numPalettes (header_layout buf 0) = u32at buf 0x30"
    "numPalettes (header_layout buf 4) = u32at buf 0x2C"
    "colorsPerPalette (header_layout buf 0) = u32at buf 0x34"
    "colorsPerPalette (header_layout buf 4) = u32at buf 0x30" for k
    by (simp_all add: header_layout_def)
  have "formatIndicator h = u32at buf 0x2C
         \<and> (formatIndicator h = 0 \<longrightarrow>
               headerSize h = 0xEC \<and> numPalettes h = u32at buf 0x30
               \<and> colorsPerPalette h = u32at buf 0x34 \<and> h = header_layout buf 0)
         \<and> (formatIndicator h \<noteq> 0 \<longrightarrow>
               headerSize h = 0xE8 \<and> numPalettes h = u32at buf 0x2C
               \<and> colorsPerPalette h = u32at buf 0x30 \<and> h = header_layout buf 4)"
    if "texHeaderParser buf = Some h" for h
  proof (cases "u32at buf 0x2C = 0")
    case True
    with that eq have "h = header_layout buf 0" by (simp split: if_splits)
    with True fields show ?thesis by metis
  next
    case False
    with that eq have "h = header_layout buf 4" by (simp split: if_splits)
    with False fields show ?thesis by metis
  qed
  with eq show ?thesis by blast
qed

theorem texHeaderParser_layout_witness:
  "texHeaderParser tex_palette_2x1 = Some (header_layout tex_palette_2x1 0)
   \<and> formatIndicator (header_layout tex_palette_2x1 0) = 0
   \<and> headerSize (header_layout tex_palette_2x1 0) = 0xEC
   \<and> numPalettes (header_layout tex_palette_2x1 0) = u32at tex_palette_2x1 0x30
   \<and> texHeaderParser tex_palette_2x1_alt = Some (header_layout tex_palette_2x1_alt 4)
   \<and> formatIndicator (header_layout tex_palette_2x1_alt 4) \<noteq> 0
   \<and> headerSize (header_layout tex_palette_2x1_alt 4) = 0xE8
   \<and> numPalettes (header_layout tex_palette_2x1_alt 4) = u32at tex_palette_2x1_alt 0x2C"
proof -
  have s: "length tex_palette_2x1 = 242" "u32at tex_palette_2x1 0x2C = 0"
    by code_simp+
  have a: "length tex_palette_2x1_alt = 238" "u32at tex_palette_2x1_alt 0x2C = 1"
    by code_simp+
  note T1 = texHeaderParser_layout [of tex_palette_2x1, THEN conjunct1]
  note T2 = texHeaderParser_layout [of tex_palette_2x1, THEN conjunct2, rule_format]
  note U1 = texHeaderParser_layout [of tex_palette_2x1_alt, THEN conjunct1]
  note U2 = texHeaderParser_layout [of tex_palette_2x1_alt, THEN conjunct2, rule_format]
  have p: "texHeaderParser tex_palette_2x1 = Some (header_layout tex_palette_2x1 0)"
    by (subst T1) (simp add: s)
  have q: "texHeaderParser tex_palette_2x1_alt = Some (header_layout tex_palette_2x1_alt 4)"
    by (subst U1) (simp add: a)
  have f0: "formatIndicator (header_layout tex_palette_2x1 0) = 0"
    using T2 [OF p] s(2) by metis
  have f1: "formatIndicator (header_layout tex_palette_2x1_alt 4) \<noteq> 0"
    using U2 [OF q] a(2) by (metis zero_neq_one)
  show ?thesis
    using p q f0 f1 T2 [OF p] U2 [OF q] by metis
qed
section \<open>Properties of the texture constructor\<close>

lemma texHeaderParser_fresh:
  assumes "texHeaderParser buf = Some h"
  shows "paletteIndex h = None" and "palette h = None" and "pixels h = []"
    and "colorKeyArray h = None"
proof -
  from assms have "h = header_layout buf 0 \<or> h = header_layout buf 4"
    using texHeaderParser_Some_layout [of buf h] by blast
  then show "paletteIndex h = None" and "palette h = None" and "pixels h = []"
    and "colorKeyArray h = None"
    by (auto simp: header_layout_def)
qed

lemma TexFile_valid_header:
  assumes "texHeaderParser buf = Some h" and "isValidTexData h"
  shows "TexFile buf =
     (if paletteFlag h \<noteq> 0 \<and> length buf < headerSize h + palette_bytes h
      then Inl (TruncatedPalette (headerSize h) (length buf))
      else if length buf < headerSize h + palette_bytes h + pixel_bytes h
      then Inl (TruncatedPixels (pixel_bytes h) (headerSize h + palette_bytes h) (length buf))
      else Inr (read_colorKeyArray buf (with_pixels buf h)
                  (headerSize h + palette_bytes h + pixel_bytes h)))"
  using assms
  by (simp add: TexFile_def read_palette_def read_pixels_def Let_def palette_bytes_def
      pixel_bytes_def with_pixels_def with_palette_def not_less)

lemma TexFile_Inr:
  assumes "TexFile buf = Inr t"
  shows "\<exists>h. texHeaderParser buf = Some h \<and> isValidTexData h
           \<and> headerSize h + palette_bytes h + pixel_bytes h \<le> length buf
           \<and> t = read_colorKeyArray buf (with_pixels buf h)
                  (headerSize h + palette_bytes h + pixel_bytes h)"
proof (cases "texHeaderParser buf")
  case None
  with assms show ?thesis by (simp add: TexFile_def)
next
  case (Some h)
  show ?thesis
  proof (cases "isValidTexData h")
    case False
    with Some assms show ?thesis by (simp add: TexFile_def)
  next
    case True
    from TexFile_valid_header [OF Some True] assms Some True
    show ?thesis by (auto split: if_splits)
  qed
qed

text \<open>
  C3. Whenever the header parser returns a header whose width or height is outside
  \<open>(0, 4096]\<close>, or whose bit depth is outside \<open>(0, 32]\<close>, or whose bytes-per-pixel is
  outside \<open>[1, 4]\<close>, the constructor fails with the "Invalid TEX data" error that carries
  the width, height, bit depth and bytes-per-pixel as parsed; no texture is returned.
\<close>

theorem TexFile_rejects_invalid_header:
  assumes "texHeaderParser buf = Some h"
    and "unat (width h) = 0 \<or> 4096 < unat (width h)
         \<or> unat (height h) = 0 \<or> 4096 < unat (height h)
         \<or> unat (bitDepth h) = 0 \<or> 32 < unat (bitDepth h)
         \<or> unat (bytesPerPixel h) < 1 \<or> 4 < unat (bytesPerPixel h)"
  shows "TexFile buf = Inl (InvalidTexData (unat (width h)) (unat (height h))
                              (unat (bitDepth h)) (unat (bytesPerPixel h)))"
proof -
  from assms(2) have "\<not> isValidTexData h"
    by (auto simp: isValidTexData_def)
  with assms(1) show ?thesis by (simp add: TexFile_def)
qed

theorem TexFile_rejects_invalid_header_witness:
  "texHeaderParser tex_wide = Some (header_layout tex_wide 0)
   \<and> 4096 < unat (width (header_layout tex_wide 0))
   \<and> TexFile tex_wide = Inl (InvalidTexData 5000 1 8 1)"
proof -
  have s: "200 \<le> length tex_wide" "u32at tex_wide 44 = 0"
    by code_simp+
  have u: "u32at tex_wide 60 = 5000" "u32at tex_wide 64 = 1" "u32at tex_wide 56 = 8"
    "u32at tex_wide 104 = 1"
    by code_simp+
  have h1: "texHeaderParser tex_wide = Some (header_layout tex_wide 0)"
    using s by (rule texHeaderParser_std)
  have v: "unat (width (header_layout tex_wide 0)) = 5000"
    "unat (height (header_layout tex_wide 0)) = 1"
    "unat (bitDepth (header_layout tex_wide 0)) = 8"
    "unat (bytesPerPixel (header_layout tex_wide 0)) = 1"
    by (simp_all add: header_layout_def u)
  have h2: "unat (width (header_layout tex_wide 0)) = 0
         \<or> 4096 < unat (width (header_layout tex_wide 0))
         \<or> unat (height (header_layout tex_wide 0)) = 0
         \<or> 4096 < unat (height (header_layout tex_wide 0))
         \<or> unat (bitDepth (header_layout tex_wide 0)) = 0
         \<or> 32 < unat (bitDepth (header_layout tex_wide 0))
         \<or> unat (bytesPerPixel (header_layout tex_wide 0)) < 1
         \<or> 4 < unat (bytesPerPixel (header_layout tex_wide 0))"
    by (simp add: v)
  have big: "4096 < unat (width (header_layout tex_wide 0))"
    by (simp add: v)
  have "TexFile tex_wide = Inl (InvalidTexData 5000 1 8 1)"
    using TexFile_rejects_invalid_header [OF h1 h2] by (simp only: v)
  with h1 big show ?thesis by (intro conjI)
qed

text \<open>
  C4, as the claim states it, fails: a buffer of 200 zero bytes is shorter than the
  header (\<open>0xEC\<close> bytes), yet the constructor fails with "Invalid TEX data", since the
  header fields are validated before any length is compared; and the empty buffer
  fails with "Failed to parse TEX header", the error of the header parser itself.
\<close>

theorem TexFile_truncated_counterexample:
  "length (replicate 200 (0 :: byte)) < 0xEC
   \<and> TexFile (replicate 200 0) = Inl (InvalidTexData 0 0 0 0)
   \<and> \<not> is_Truncated (InvalidTexData 0 0 0 0)
   \<and> TexFile [] = Inl HeaderParseFailed
   \<and> \<not> is_Truncated HeaderParseFailed"
  by code_simp

text \<open>
  C4, amended. For every buffer whose header the parser can read and that passes
  validation: if the buffer is shorter than header size plus palette bytes (4 times the
  palette size, when the palette flag is set) plus pixel bytes (width times height
  times bytes-per-pixel), the constructor fails with one of the two "TEX file truncated"
  errors; otherwise it returns a texture, and the color-key array is left out exactly
  when the flag is clear or the buffer is too short for it.
\<close>

theorem TexFile_truncated:
  assumes "texHeaderParser buf = Some h" and "isValidTexData h"
  shows "(length buf < headerSize h + palette_bytes h + pixel_bytes h
            \<longrightarrow> (\<exists>e. TexFile buf = Inl e \<and> is_Truncated e))
       \<and> (headerSize h + palette_bytes h + pixel_bytes h \<le> length buf
            \<longrightarrow> (\<exists>t. TexFile buf = Inr t
                  \<and> (colorKeyArray t = None \<longleftrightarrow>
                       colorKeyArrayFlag h = 0
                       \<or> length buf < headerSize h + palette_bytes h + pixel_bytes h
                                        + unat (numPalettes h))))"
  using TexFile_valid_header [OF assms] texHeaderParser_fresh(4) [OF assms(1)]
  by (auto simp: is_Truncated_def read_colorKeyArray_def with_pixels_def with_palette_def Let_def
      palette_bytes_def)

theorem TexFile_truncated_witness:
  "texHeaderParser tex_cut = Some (header_layout tex_cut 0)
   \<and> isValidTexData (header_layout tex_cut 0)
   \<and> length tex_cut < headerSize (header_layout tex_cut 0)
         + palette_bytes (header_layout tex_cut 0) + pixel_bytes (header_layout tex_cut 0)
   \<and> (\<exists>e. TexFile tex_cut = Inl e \<and> is_Truncated e)
   \<and> texHeaderParser tex_colorkey_short = Some (header_layout tex_colorkey_short 0)
   \<and> isValidTexData (header_layout tex_colorkey_short 0)
   \<and> (\<exists>t. TexFile tex_colorkey_short = Inr t \<and> colorKeyArray t = None)"
proof -
  have s: "length tex_cut = 241" "u32at tex_cut 44 = 0"
    by code_simp+
  have u: "u32at tex_cut 60 = 2" "u32at tex_cut 64 = 1" "u32at tex_cut 56 = 8"
    "u32at tex_cut 104 = 1" "u32at tex_cut 76 = 1" "u32at tex_cut 88 = 1"
    by code_simp+
  have a1: "texHeaderParser tex_cut = Some (header_layout tex_cut 0)"
    by (rule texHeaderParser_std) (simp_all add: s)
  have a2: "isValidTexData (header_layout tex_cut 0)"
    by (simp add: isValidTexData_def header_layout_def u)
  have a3: "length tex_cut < headerSize (header_layout tex_cut 0)
              + palette_bytes (header_layout tex_cut 0) + pixel_bytes (header_layout tex_cut 0)"
    by (simp add: palette_bytes_def pixel_bytes_def header_layout_def u s)
  have a4: "\<exists>e. TexFile tex_cut = Inl e \<and> is_Truncated e"
    by (rule TexFile_truncated [OF a1 a2, THEN conjunct1, rule_format, OF a3])
  have s': "length tex_colorkey_short = 242" "u32at tex_colorkey_short 44 = 0"
    by code_simp+
  have u': "u32at tex_colorkey_short 60 = 2" "u32at tex_colorkey_short 64 = 1"
    "u32at tex_colorkey_short 56 = 8" "u32at tex_colorkey_short 104 = 1"
    "u32at tex_colorkey_short 76 = 1" "u32at tex_colorkey_short 88 = 1"
    "u32at tex_colorkey_short 48 = 1" "u32at tex_colorkey_short 188 = 1"
    by code_simp+
  have b1: "texHeaderParser tex_colorkey_short = Some (header_layout tex_colorkey_short 0)"
    by (rule texHeaderParser_std) (simp_all add: s')
  have b2: "isValidTexData (header_layout tex_colorkey_short 0)"
    by (simp add: isValidTexData_def header_layout_def u')
  have b3: "headerSize (header_layout tex_colorkey_short 0)
              + palette_bytes (header_layout tex_colorkey_short 0)
              + pixel_bytes (header_layout tex_colorkey_short 0) \<le> length tex_colorkey_short"
    by (simp add: palette_bytes_def pixel_bytes_def header_layout_def u' s')
  have b4: "length tex_colorkey_short < headerSize (header_layout tex_colorkey_short 0)
              + palette_bytes (header_layout tex_colorkey_short 0)
              + pixel_bytes (header_layout tex_colorkey_short 0)
              + unat (numPalettes (header_layout tex_colorkey_short 0))"
    by (simp add: palette_bytes_def pixel_bytes_def header_layout_def u' s')
  let ?h = "header_layout tex_colorkey_short 0"
  from TexFile_truncated [OF b1 b2, THEN conjunct2, rule_format, OF b3]
  obtain t where tt: "TexFile tex_colorkey_short = Inr t
           \<and> (colorKeyArray t = None \<longleftrightarrow>
                 colorKeyArrayFlag ?h = 0
                 \<or> length tex_colorkey_short
                      < headerSize ?h + palette_bytes ?h + pixel_bytes ?h + unat (numPalettes ?h))" ..
  from tt have t: "TexFile tex_colorkey_short = Inr t" by (rule conjunct1)
  have none: "colorKeyArray t = None"
    by (rule tt [THEN conjunct2, THEN iffD2]) (rule disjI2, rule b4)
  from t none have b5: "\<exists>t. TexFile tex_colorkey_short = Inr t \<and> colorKeyArray t = None"
    by (intro exI conjI)
  from a1 a2 a3 a4 b1 b2 b5 show ?thesis by (intro conjI)
qed

section \<open>Decoded examples\<close>

text \<open>The constructor on the example buffers, evaluated.\<close>

lemma TexFile_tex_palette_2x1: "TexFile tex_palette_2x1 = Inr decoded_palette_2x1"
  by code_simp

lemma TexFile_tex_no_count: "TexFile tex_no_count = Inr decoded_no_count"
  by code_simp

lemma TexFile_tex_direct_bpp3: "TexFile tex_direct_bpp3 = Inr decoded_direct_bpp3"
  by code_simp

lemma TexFile_tex_direct_16: "TexFile tex_direct_16 = Inr decoded_direct_16"
  by code_simp

section \<open>Re-encoding a decoded texture\<close>

text \<open>
  C1. The standard-layout buffer \<open>tex_palette_2x1\<close> decodes to \<open>decoded_palette_2x1\<close>, and
  re-encoding that texture does not return a buffer at all: \<open>writeFile\<close> allocates
  \<open>0xEC + 4 + 2\<close> bytes, but its header statements advance the offset to \<open>0xFC\<close> (12 bytes
  skipped after the color-key flag where the parser skips 8, and 48 bytes after the
  reference alpha where the parser skips 36), so writing the palette at \<open>0xFC\<close> leaves
  the array and throws a \<open>RangeError\<close>.
\<close>

theorem writeFile_decoded_palette_2x1:
  "TexFile tex_palette_2x1 = Inr decoded_palette_2x1
   \<and> formatIndicator decoded_palette_2x1 = 0
   \<and> write_header decoded_palette_2x1 (replicate (0xEC + 4 + 2) 0) \<noteq> None
   \<and> map_option snd (write_header decoded_palette_2x1 (replicate (0xEC + 4 + 2) 0)) = Some 0xFC
   \<and> writeFile decoded_palette_2x1 = Inl RangeError"
proof -
  have "formatIndicator decoded_palette_2x1 = 0"
    by (simp add: decoded_palette_2x1_def)
  moreover have "write_header decoded_palette_2x1 (replicate (0xEC + 4 + 2) 0) \<noteq> None"
    by code_simp
  moreover have "map_option snd (write_header decoded_palette_2x1 (replicate (0xEC + 4 + 2) 0))
                   = Some 0xFC"
    by code_simp
  moreover have "writeFile decoded_palette_2x1 = Inl RangeError"
    by code_simp
  ultimately show ?thesis
    using TexFile_tex_palette_2x1 by (intro conjI)
qed

section \<open>Bytes, words and channels\<close>

text \<open>
  The 16- and 32-bit reads as arithmetic on the bytes, and the channel computation as
  arithmetic in the case the format tables of real files are in: the masked value has
  bit 31 clear, the shift is below 32 and the channel has at most 8 bits. Then the
  channel is \<open>(v AND msk) div 2^shift * 2^(8 - bits) mod 256\<close>.
\<close>

lemma nat_or_push: "a < 2 ^ n \<Longrightarrow> (a::nat) OR push_bit n b = a + push_bit n b"
proof -
  assume a: "a < 2 ^ n"
  then have e: "take_bit n a = a" by (simp add: take_bit_nat_eq_self)
  have "take_bit n a AND push_bit n b = 0"
    by (auto simp: bit_eq_iff bit_simps)
  with e have "a AND push_bit n b = 0" by simp
  then show ?thesis by (simp add: disjunctive_add_eq_or)
qed

lemma unat_ucast_byte: "unat (ucast (b :: byte) :: 32 word) = unat b"
proof -
  have "unat b < 2 ^ LENGTH(8)" by (rule unsigned_less)
  then have "unat b < 2 ^ 32" by simp
  then show ?thesis by (simp add: unsigned_ucast_eq take_bit_nat_eq_self)
qed

lemma unat_push_byte:
  "k \<le> 24 \<Longrightarrow> unat (push_bit k (ucast (b :: byte) :: 32 word)) = push_bit k (unat b)"
proof -
  assume k: "k \<le> 24"
  have "unat b < 2 ^ 8" using unsigned_less [of b] by simp
  then have "unat b * 2 ^ k < 2 ^ 8 * 2 ^ k" by simp
  also have "\<dots> = 2 ^ (8 + k)" by (simp add: power_add)
  also have "\<dots> \<le> (2 :: nat) ^ 32" using k by (intro power_increasing) simp_all
  finally have "push_bit k (unat b) < 2 ^ 32" by (simp add: push_bit_eq_mult)
  then show ?thesis
    by (simp add: unsigned_push_bit_eq unat_ucast_byte take_bit_nat_eq_self)
qed

lemma unat_le16: "unat (le16 b0 b1) = unat b0 + 256 * unat b1"
proof -
  have b: "unat b0 < 2 ^ 8" using unsigned_less [of b0] by simp
  have "unat (le16 b0 b1) = unat b0 OR push_bit 8 (unat b1)"
    by (simp add: le16_def unsigned_or_eq unat_ucast_byte unat_push_byte)
  also have "\<dots> = unat b0 + push_bit 8 (unat b1)"
    using b by (rule nat_or_push)
  finally show ?thesis by (simp add: push_bit_eq_mult)
qed

lemma unat_le32:
  "unat (le32 b0 b1 b2 b3)
     = unat b0 + 256 * unat b1 + 65536 * unat b2 + 16777216 * unat b3"
proof -
  have b: "unat b0 < 2 ^ 8" "unat b1 < 2 ^ 8" "unat b2 < 2 ^ 8"
    using unsigned_less [of b0] unsigned_less [of b1] unsigned_less [of b2] by simp_all
  have "unat (le32 b0 b1 b2 b3)
      = unat b0 OR push_bit 8 (unat b1) OR push_bit 16 (unat b2) OR push_bit 24 (unat b3)"
    by (simp add: le32_def unsigned_or_eq unat_ucast_byte unat_push_byte)
  also have "\<dots> = unat b0 OR push_bit 8 (unat b1 OR push_bit 8 (unat b2 OR push_bit 8 (unat b3)))"
    by (simp add: push_bit_or push_bit_push_bit or.assoc)
  also have "\<dots> = unat b0 + push_bit 8 (unat b1 + push_bit 8 (unat b2 + push_bit 8 (unat b3)))"
    using b by (simp add: nat_or_push)
  finally show ?thesis by (simp add: push_bit_eq_mult)
qed

lemma signed_drop_bit_nonneg:
  fixes w :: "32 word"
  assumes "\<not> bit w 31"
  shows "signed_drop_bit s w = drop_bit s w"
  by (rule bit_word_eqI) (use assms in \<open>auto simp: bit_simps dest: bit_imp_le_length\<close>)

lemma unat_ucast_push_drop:
  fixes w :: "32 word"
  shows "unat (ucast (push_bit k (drop_bit s w)) :: byte) = (unat w div 2 ^ s * 2 ^ k) mod 256"
proof -
  have "unat (ucast (push_bit k (drop_bit s w)) :: byte)
          = take_bit LENGTH(8) (unat (push_bit k (drop_bit s w)))"
    by (rule unsigned_ucast_eq)
  also have "unat (push_bit k (drop_bit s w))
          = take_bit LENGTH(32) (push_bit k (unat (drop_bit s w)))"
    by (rule unsigned_push_bit_eq)
  also have "unat (drop_bit s w) = drop_bit s (unat w)"
    by (rule unat_drop_bit_eq)
  finally have "unat (ucast (push_bit k (drop_bit s w)) :: byte)
          = take_bit 8 (push_bit k (drop_bit s (unat w)))"
    by simp
  also have "\<dots> = (unat w div 2 ^ s * 2 ^ k) mod 256"
    by (simp add: take_bit_eq_mod push_bit_eq_mult drop_bit_eq_div)
  finally show ?thesis .
qed

lemma channel_arith:
  assumes "unat (val AND msk) < 2 ^ 31" and "unat shift < 32" and "unat bits \<le> 8"
  shows "unat (channel val msk shift bits)
           = (unat (val AND msk) div 2 ^ unat shift * 2 ^ (8 - unat bits)) mod 256"
proof -
  define w where "w = val AND msk"
  have "\<not> bit (unat w) 31"
    using assms(1) by (simp add: w_def bit_iff_odd_drop_bit drop_bit_eq_div)
  then have nb: "\<not> bit w 31"
    by (simp add: bit_unsigned_iff)
  have sd: "signed_drop_bit (unat shift) w = drop_bit (unat shift) w"
    using nb by (rule signed_drop_bit_nonneg)
  have "0 \<le> 8 - int (unat bits)" and "8 - int (unat bits) < 32"
    using assms(3) by linarith+
  then have "(8 - int (unat bits)) mod 32 = 8 - int (unat bits)"
    by (rule mod_pos_pos_trivial)
  moreover have "nat (8 - int (unat bits)) = 8 - unat bits"
    by linarith
  ultimately have cnt: "nat ((8 - int (unat bits)) mod 32) = 8 - unat bits"
    by (simp only:)
  have sh: "unat shift mod 32 = unat shift"
    using assms(2) by simp
  have "channel val msk shift bits
           = ucast (push_bit (8 - unat bits) (drop_bit (unat shift) w))"
    unfolding channel_def cnt sh w_def [symmetric] sd ..
  then show ?thesis
    by (simp only: unat_ucast_push_drop w_def)
qed

section \<open>Properties of pixel expansion\<close>

lemma palette_loop_length: "length (palette_loop pal px po i n) = 4 * n"
  by (induction n arbitrary: i) (simp_all add: Let_def)

lemma palette_loop_nth:
  "j < n \<Longrightarrow>
     palette_loop pal px po i n ! (4 * j)
       = byte_at pal (map_option (\<lambda>k. k + 2) (colorIndex px po (i + j)))
   \<and> palette_loop pal px po i n ! (4 * j + 1)
       = byte_at pal (map_option (\<lambda>k. k + 1) (colorIndex px po (i + j)))
   \<and> palette_loop pal px po i n ! (4 * j + 2) = byte_at pal (colorIndex px po (i + j))
   \<and> palette_loop pal px po i n ! (4 * j + 3)
       = byte_at pal (map_option (\<lambda>k. k + 3) (colorIndex px po (i + j)))"
proof (induction n arbitrary: i j)
  case 0
  then show ?case by simp
next
  case (Suc n)
  show ?case
  proof (cases j)
    case 0
    then show ?thesis by (simp add: Let_def)
  next
    case (Suc j')
    with Suc.prems have "j' < n" by simp
    from Suc.IH [OF this, of "i + 1"] Suc
    show ?thesis by (simp add: Let_def nth_Cons' add.commute)
  qed
qed

lemma length_slice_bytes:
  "b \<le> length data \<Longrightarrow> length (slice_bytes data a b) = b - a"
  by (simp add: slice_bytes_def)

lemma TexFile_Inr_props:
  assumes "TexFile buf = Inr t"
  shows "isValidTexData t"
    and "length (pixels t) = unat (width t) * unat (height t) * unat (bytesPerPixel t)"
    and "paletteFlag t \<noteq> 0 \<Longrightarrow> \<exists>pal. palette t = Some pal"
proof -
  from TexFile_Inr [OF assms] obtain h where
    h: "texHeaderParser buf = Some h" "isValidTexData h"
    and len: "headerSize h + palette_bytes h + pixel_bytes h \<le> length buf"
    and t: "t = read_colorKeyArray buf (with_pixels buf h)
                  (headerSize h + palette_bytes h + pixel_bytes h)"
    by blast
  show "isValidTexData t"
    using h(2) by (simp add: t read_colorKeyArray_def with_pixels_def with_palette_def
        isValidTexData_def Let_def)
  show "length (pixels t) = unat (width t) * unat (height t) * unat (bytesPerPixel t)"
    using len by (simp add: t read_colorKeyArray_def with_pixels_def with_palette_def
        Let_def length_slice_bytes pixel_bytes_def)
  show "\<exists>pal. palette t = Some pal" if "paletteFlag t \<noteq> 0"
    using that by (simp add: t read_colorKeyArray_def with_pixels_def with_palette_def
        Let_def split: if_splits)
qed

lemma pixel_count_le:
  assumes "isValidTexData t"
    and "length (pixels t) = unat (width t) * unat (height t) * unat (bytesPerPixel t)"
  shows "unat (width t) * unat (height t) \<le> length (pixels t)"
proof -
  from assms(1) have "1 \<le> unat (bytesPerPixel t)" by (simp add: isValidTexData_def)
  then have "unat (width t) * unat (height t) * 1
               \<le> unat (width t) * unat (height t) * unat (bytesPerPixel t)"
    by (rule mult_le_mono2)
  with assms(2) show ?thesis by simp
qed

lemma getPixels_palette:
  assumes "TexFile buf = Inr t" and "paletteFlag t \<noteq> 0"
    and "actualColorsPerPalette t = Some a"
  shows "\<exists>pal out. palette t = Some pal \<and> getPixels t k = Inr out
       \<and> length out = 4 * (unat (width t) * unat (height t))
       \<and> (\<forall>i < unat (width t) * unat (height t).
            out ! (4 * i) = byte_at pal (Some (unat (pixels t ! i) * 4 + k * a * 4 + 2))
          \<and> out ! (4 * i + 1) = byte_at pal (Some (unat (pixels t ! i) * 4 + k * a * 4 + 1))
          \<and> out ! (4 * i + 2) = byte_at pal (Some (unat (pixels t ! i) * 4 + k * a * 4))
          \<and> out ! (4 * i + 3) = byte_at pal (Some (unat (pixels t ! i) * 4 + k * a * 4 + 3)))"
proof -
  let ?n = "unat (width t) * unat (height t)"
  from TexFile_Inr_props [OF assms(1)] assms(2) obtain pal where
    pal: "palette t = Some pal" and n: "?n \<le> length (pixels t)"
    using pixel_count_le [of t] by blast
  let ?out = "palette_loop pal (pixels t) (Some (k * a * 4)) 0 ?n"
  have g: "getPixels t k = Inr ?out"
    using assms(2,3) pal by (simp add: getPixels_def Let_def)
  have each: "?out ! (4 * i) = byte_at pal (Some (unat (pixels t ! i) * 4 + k * a * 4 + 2))
          \<and> ?out ! (4 * i + 1) = byte_at pal (Some (unat (pixels t ! i) * 4 + k * a * 4 + 1))
          \<and> ?out ! (4 * i + 2) = byte_at pal (Some (unat (pixels t ! i) * 4 + k * a * 4))
          \<and> ?out ! (4 * i + 3) = byte_at pal (Some (unat (pixels t ! i) * 4 + k * a * 4 + 3))"
    if "i < ?n" for i
  proof -
    from that n have "i < length (pixels t)" by simp
    then have "colorIndex (pixels t) (Some (k * a * 4)) (0 + i)
                 = Some (unat (pixels t ! i) * 4 + k * a * 4)"
      by (simp add: colorIndex_def)
    with palette_loop_nth [OF that, of pal "pixels t" "Some (k * a * 4)" 0]
    show ?thesis by simp
  qed
  from pal g each show ?thesis
    by (simp add: palette_loop_length)
qed

lemma take2_drop:
  "k + 2 \<le> length xs \<Longrightarrow> take 2 (drop k xs) = [xs ! k, xs ! (k + 1)]"
  by (auto simp: list_eq_iff_nth_eq nth_Cons' less_Suc_eq numeral_2_eq_2)

lemma take4_drop:
  "k + 4 \<le> length xs \<Longrightarrow>
     take 4 (drop k xs) = [xs ! k, xs ! (k + 1), xs ! (k + 2), xs ! (k + 3)]"
  by (auto simp: list_eq_iff_nth_eq nth_Cons' less_Suc_eq numeral_eq_Suc)

lemma pixel_value_2:
  assumes "i * 2 + 2 \<le> length px"
  shows "\<exists>v. pixel_value px 2 i = Some v
           \<and> unat v = little_endian_value (slice_bytes px (i * 2) (i * 2 + 2))"
proof -
  have s: "slice_bytes px (i * 2) (i * 2 + 2) = [px ! (i * 2), px ! (i * 2 + 1)]"
    using assms by (simp add: slice_bytes_def take2_drop)
  have "pixel_value px 2 i = getUint16 (slice_bytes px (i * 2) (i * 2 + 2)) 0"
    using assms by (simp add: pixel_value_def Let_def)
  also have "\<dots> = Some (le16 (px ! (i * 2)) (px ! (i * 2 + 1)))"
    unfolding s by (simp add: getUint16_def)
  finally have p: "pixel_value px 2 i = Some (le16 (px ! (i * 2)) (px ! (i * 2 + 1)))" .
  have "little_endian_value (slice_bytes px (i * 2) (i * 2 + 2))
          = unat (px ! (i * 2)) + 256 * unat (px ! (i * 2 + 1))"
    unfolding s by (simp add: little_endian_value_def)
  with p show ?thesis
    by (simp add: unat_le16)
qed

lemma pixel_value_4:
  assumes "i * 4 + 4 \<le> length px"
  shows "\<exists>v. pixel_value px 4 i = Some v
           \<and> unat v = little_endian_value (slice_bytes px (i * 4) (i * 4 + 4))"
proof -
  have s: "slice_bytes px (i * 4) (i * 4 + 4)
             = [px ! (i * 4), px ! (i * 4 + 1), px ! (i * 4 + 2), px ! (i * 4 + 3)]"
    using assms by (simp add: slice_bytes_def take4_drop)
  have "pixel_value px 4 i = getUint32 (slice_bytes px (i * 4) (i * 4 + 4)) 0"
    using assms by (simp add: pixel_value_def Let_def)
  also have "\<dots>
          = Some (le32 (px ! (i * 4)) (px ! (i * 4 + 1)) (px ! (i * 4 + 2)) (px ! (i * 4 + 3)))"
    unfolding s by (simp add: getUint32_def)
  finally have p: "pixel_value px 4 i
          = Some (le32 (px ! (i * 4)) (px ! (i * 4 + 1)) (px ! (i * 4 + 2)) (px ! (i * 4 + 3)))" .
  have "little_endian_value (slice_bytes px (i * 4) (i * 4 + 4))
          = unat (px ! (i * 4)) + 256 * unat (px ! (i * 4 + 1))
            + 65536 * unat (px ! (i * 4 + 2)) + 16777216 * unat (px ! (i * 4 + 3))"
    unfolding s by (simp add: little_endian_value_def)
  with p show ?thesis
    by (simp add: unat_le32)
qed

lemma pixel_value_Some:
  assumes "bpp = 2 \<or> bpp = 4" and "i * bpp + bpp \<le> length px"
  shows "\<exists>v. pixel_value px bpp i = Some v
           \<and> unat v = little_endian_value (slice_bytes px (i * bpp) (i * bpp + bpp))"
  using assms pixel_value_2 [of i px] pixel_value_4 [of i px] by blast

lemma length_rgba: "length (rgba format v) = 4"
  by (simp add: rgba_def)

lemma direct_loop_Some:
  assumes "bpp = 2 \<or> bpp = 4" and "(i + n) * bpp \<le> length px"
  shows "\<exists>out. direct_loop format px bpp i n = Some out \<and> length out = 4 * n
           \<and> (\<forall>j < n. \<exists>v. pixel_value px bpp (i + j) = Some v
                  \<and> (\<forall>c < 4. out ! (4 * j + c) = rgba format v ! c))"
  using assms(2)
proof (induction n arbitrary: i)
  case 0
  then show ?case by simp
next
  case (Suc n)
  from Suc.prems have "i * bpp + bpp \<le> length px" by (simp add: algebra_simps)
  from pixel_value_Some [OF assms(1) this] obtain v
    where v: "pixel_value px bpp i = Some v" by blast
  from Suc.prems have "(i + 1 + n) * bpp \<le> length px" by (simp add: algebra_simps)
  from Suc.IH [OF this] obtain rest where
    rest: "direct_loop format px bpp (i + 1) n = Some rest" "length rest = 4 * n"
    and nth: "\<forall>j < n. \<exists>w. pixel_value px bpp (i + 1 + j) = Some w
                  \<and> (\<forall>c < 4. rest ! (4 * j + c) = rgba format w ! c)"
    by blast
  let ?out = "rgba format v @ rest"
  have d: "direct_loop format px bpp i (Suc n) = Some ?out"
    using v rest(1) by simp
  have each: "\<exists>w. pixel_value px bpp (i + j) = Some w
                  \<and> (\<forall>c < 4. ?out ! (4 * j + c) = rgba format w ! c)"
    if "j < Suc n" for j
  proof (cases j)
    case 0
    then show ?thesis using v by (simp add: nth_append length_rgba)
  next
    case (Suc j')
    with that have "j' < n" by simp
    with nth obtain w where w: "pixel_value px bpp (i + 1 + j') = Some w"
      and c: "\<forall>c < 4. rest ! (4 * j' + c) = rgba format w ! c"
      by blast
    have "?out ! (4 * j + c) = rest ! (4 * j' + c)" for c
      using Suc by (simp add: nth_append length_rgba)
    with w c Suc show ?thesis by simp
  qed
  from d rest(2) each show ?case
    by (simp add: length_rgba)
qed

lemma getPixels_direct:
  assumes "TexFile buf = Inr t" and "paletteFlag t = 0"
    and "unat (bytesPerPixel t) = 2 \<or> unat (bytesPerPixel t) = 4"
  shows "\<exists>out. getPixels t k = Inr out
       \<and> length out = 4 * (unat (width t) * unat (height t))
       \<and> (\<forall>i < unat (width t) * unat (height t).
            \<exists>v. unat v = little_endian_value
                           (slice_bytes (pixels t) (i * unat (bytesPerPixel t))
                              (i * unat (bytesPerPixel t) + unat (bytesPerPixel t)))
              \<and> out ! (4 * i) = channel v (redMask (pixelFormat t))
                    (redShift (pixelFormat t)) (redBits (pixelFormat t))
              \<and> out ! (4 * i + 1) = channel v (greenMask (pixelFormat t))
                    (greenShift (pixelFormat t)) (greenBits (pixelFormat t))
              \<and> out ! (4 * i + 2) = channel v (blueMask (pixelFormat t))
                    (blueShift (pixelFormat t)) (blueBits (pixelFormat t))
              \<and> out ! (4 * i + 3) =
                    (if unat (alphaBits (pixelFormat t)) > 0
                     then channel v (alphaMask (pixelFormat t))
                            (alphaShift (pixelFormat t)) (alphaBits (pixelFormat t))
                     else 255))"
proof -
  let ?n = "unat (width t) * unat (height t)"
  let ?bpp = "unat (bytesPerPixel t)"
  let ?f = "pixelFormat t"
  from TexFile_Inr_props(2) [OF assms(1)]
  have len: "(0 + ?n) * ?bpp \<le> length (pixels t)" by simp
  from direct_loop_Some [OF assms(3) len, of ?f] obtain out where
    d: "direct_loop ?f (pixels t) ?bpp 0 ?n = Some out" and l: "length out = 4 * ?n"
    and nth: "\<forall>j < ?n. \<exists>v. pixel_value (pixels t) ?bpp (0 + j) = Some v
                  \<and> (\<forall>c < 4. out ! (4 * j + c) = rgba ?f v ! c)"
    by blast
  have g: "getPixels t k = Inr out"
    using assms(2) d by (simp add: getPixels_def Let_def)
  have each: "\<exists>v. unat v = little_endian_value
                           (slice_bytes (pixels t) (i * ?bpp) (i * ?bpp + ?bpp))
              \<and> out ! (4 * i) = channel v (redMask ?f) (redShift ?f) (redBits ?f)
              \<and> out ! (4 * i + 1) = channel v (greenMask ?f) (greenShift ?f) (greenBits ?f)
              \<and> out ! (4 * i + 2) = channel v (blueMask ?f) (blueShift ?f) (blueBits ?f)
              \<and> out ! (4 * i + 3) =
                    (if unat (alphaBits ?f) > 0
                     then channel v (alphaMask ?f) (alphaShift ?f) (alphaBits ?f)
                     else 255)"
    if i: "i < ?n" for i
  proof -
    from nth i obtain v where v: "pixel_value (pixels t) ?bpp i = Some v"
      and c: "\<forall>c < 4. out ! (4 * i + c) = rgba ?f v ! c"
      by auto
    from i have "Suc i \<le> ?n" by simp
    then have "Suc i * ?bpp \<le> ?n * ?bpp" by (rule mult_le_mono1)
    with len have "i * ?bpp + ?bpp \<le> length (pixels t)" by simp
    from pixel_value_Some [OF assms(3) this] v
    have u: "unat v = little_endian_value
                           (slice_bytes (pixels t) (i * ?bpp) (i * ?bpp + ?bpp))"
      by simp
    have "out ! (4 * i) = rgba ?f v ! 0" "out ! (4 * i + 1) = rgba ?f v ! 1"
      "out ! (4 * i + 2) = rgba ?f v ! 2" "out ! (4 * i + 3) = rgba ?f v ! 3"
      using c [rule_format, of 0] c [rule_format, of 1] c [rule_format, of 2]
        c [rule_format, of 3]
      by simp_all
    then have "out ! (4 * i) = channel v (redMask ?f) (redShift ?f) (redBits ?f)"
      "out ! (4 * i + 1) = channel v (greenMask ?f) (greenShift ?f) (greenBits ?f)"
      "out ! (4 * i + 2) = channel v (blueMask ?f) (blueShift ?f) (blueBits ?f)"
      "out ! (4 * i + 3) = (if unat (alphaBits ?f) > 0
                     then channel v (alphaMask ?f) (alphaShift ?f) (alphaBits ?f)
                     else 255)"
      by (simp_all add: rgba_def)
    with u show ?thesis by blast
  qed
  from g l each show ?thesis by blast
qed

text \<open>
  C5, as the claim states it, fails: \<open>tex_no_count\<close> decodes to a palette-mode texture
  whose palette count is 0. There \<open>floor(paletteSize / numPalettes)\<close> has no value, and
  the number of colours per sub-palette is the header's colors-per-palette field: with
  the field at 1 palette index 1 selects the second palette entry, with the field at 0
  the first.
\<close>

theorem getPixels_palette_mode_counterexample:
  "TexFile tex_no_count = Inr decoded_no_count
   \<and> paletteFlag decoded_no_count \<noteq> 0
   \<and> js_floor_div (unat (paletteSize decoded_no_count))
         (unat (numPalettes decoded_no_count)) = None
   \<and> actualColorsPerPalette decoded_no_count
         = Some (unat (colorsPerPalette decoded_no_count))
   \<and> getPixels decoded_no_count 1 = Inr [60, 50, 40, 255]
   \<and> getPixels (decoded_no_count\<lparr>colorsPerPalette := 0\<rparr>) 1 = Inr [30, 20, 10, 255]"
proof -
  have "paletteFlag decoded_no_count \<noteq> 0"
    by (simp add: decoded_no_count_def)
  moreover have "js_floor_div (unat (paletteSize decoded_no_count))
         (unat (numPalettes decoded_no_count)) = None"
    by code_simp
  moreover have "actualColorsPerPalette decoded_no_count
         = Some (unat (colorsPerPalette decoded_no_count))"
    by code_simp
  moreover have "getPixels decoded_no_count 1 = Inr [60, 50, 40, 255]"
    by code_simp
  moreover have "getPixels (decoded_no_count\<lparr>colorsPerPalette := 0\<rparr>) 1
                   = Inr [30, 20, 10, 255]"
    by code_simp
  ultimately show ?thesis
    using TexFile_tex_no_count by (intro conjI)
qed

text \<open>
  C5, amended. For every decoded palette-mode texture whose palette count is not 0, the
  number of colours per sub-palette is \<open>floor(paletteSize / numPalettes)\<close>, whatever the
  header's colors-per-palette field holds, and pixel expansion with palette index \<open>k\<close>
  returns four bytes per pixel: for pixel \<open>i\<close> with pixel byte \<open>p\<close>, the palette bytes at
  \<open>c + 2\<close>, \<open>c + 1\<close>, \<open>c\<close>, \<open>c + 3\<close> in this order (R, G, B, A from the stored B, G, R, A),
  where \<open>c = 4 p + 4 k floor(paletteSize / numPalettes)\<close>; a byte outside the palette
  reads as 0. The 2 by 1 image with palette entry B=10, G=20, R=30, A=255 and pixel
  bytes 0 expands to 30, 20, 10, 255 for each pixel.
\<close>

theorem getPixels_palette_mode:
  assumes "TexFile buf = Inr t" and "paletteFlag t \<noteq> 0" and "numPalettes t \<noteq> 0"
  shows "actualColorsPerPalette t = Some (unat (paletteSize t) div unat (numPalettes t))
     \<and> (\<exists>pal out. palette t = Some pal \<and> getPixels t k = Inr out
          \<and> length out = 4 * (unat (width t) * unat (height t))
          \<and> (\<forall>i < unat (width t) * unat (height t).
               out ! (4 * i) = byte_at pal (Some (unat (pixels t ! i) * 4
                    + k * (unat (paletteSize t) div unat (numPalettes t)) * 4 + 2))
             \<and> out ! (4 * i + 1) = byte_at pal (Some (unat (pixels t ! i) * 4
                    + k * (unat (paletteSize t) div unat (numPalettes t)) * 4 + 1))
             \<and> out ! (4 * i + 2) = byte_at pal (Some (unat (pixels t ! i) * 4
                    + k * (unat (paletteSize t) div unat (numPalettes t)) * 4))
             \<and> out ! (4 * i + 3) = byte_at pal (Some (unat (pixels t ! i) * 4
                    + k * (unat (paletteSize t) div unat (numPalettes t)) * 4 + 3))))
     \<and> TexFile tex_palette_2x1 = Inr decoded_palette_2x1
     \<and> getPixels decoded_palette_2x1 0 = Inr [30, 20, 10, 255, 30, 20, 10, 255]"
proof -
  from assms(3) have "unat (numPalettes t) \<noteq> 0"
    by (simp add: unat_eq_zero)
  then have a: "actualColorsPerPalette t
                  = Some (unat (paletteSize t) div unat (numPalettes t))"
    by (simp add: actualColorsPerPalette_def js_floor_div_def)
  have ex: "getPixels decoded_palette_2x1 0 = Inr [30, 20, 10, 255, 30, 20, 10, 255]"
    by code_simp
  from a getPixels_palette [OF assms(1,2) a, of k] TexFile_tex_palette_2x1 ex
  show ?thesis by (intro conjI)
qed

theorem getPixels_palette_mode_witness:
  "TexFile tex_palette_2x1 = Inr decoded_palette_2x1
   \<and> paletteFlag decoded_palette_2x1 \<noteq> 0 \<and> numPalettes decoded_palette_2x1 \<noteq> 0
   \<and> actualColorsPerPalette decoded_palette_2x1
       = Some (unat (paletteSize decoded_palette_2x1) div unat (numPalettes decoded_palette_2x1))
   \<and> (\<exists>pal out. palette decoded_palette_2x1 = Some pal
        \<and> getPixels decoded_palette_2x1 0 = Inr out \<and> out ! 0 = byte_at pal (Some 2))"
proof -
  have h2: "paletteFlag decoded_palette_2x1 \<noteq> 0" and h3: "numPalettes decoded_palette_2x1 \<noteq> 0"
    by (simp_all add: decoded_palette_2x1_def)
  note T = getPixels_palette_mode [OF TexFile_tex_palette_2x1 h2 h3, of 0]
  from T [THEN conjunct2, THEN conjunct1]
  obtain pal where "\<exists>out. palette decoded_palette_2x1 = Some pal
       \<and> getPixels decoded_palette_2x1 0 = Inr out
       \<and> length out = 4 * (unat (width decoded_palette_2x1) * unat (height decoded_palette_2x1))
       \<and> (\<forall>i < unat (width decoded_palette_2x1) * unat (height decoded_palette_2x1).
               out ! (4 * i) = byte_at pal (Some (unat (pixels decoded_palette_2x1 ! i) * 4
                    + 0 * (unat (paletteSize decoded_palette_2x1)
                            div unat (numPalettes decoded_palette_2x1)) * 4 + 2))
             \<and> out ! (4 * i + 1) = byte_at pal (Some (unat (pixels decoded_palette_2x1 ! i) * 4
                    + 0 * (unat (paletteSize decoded_palette_2x1)
                            div unat (numPalettes decoded_palette_2x1)) * 4 + 1))
             \<and> out ! (4 * i + 2) = byte_at pal (Some (unat (pixels decoded_palette_2x1 ! i) * 4
                    + 0 * (unat (paletteSize decoded_palette_2x1)
                            div unat (numPalettes decoded_palette_2x1)) * 4))
             \<and> out ! (4 * i + 3) = byte_at pal (Some (unat (pixels decoded_palette_2x1 ! i) * 4
                    + 0 * (unat (paletteSize decoded_palette_2x1)
                            div unat (numPalettes decoded_palette_2x1)) * 4 + 3)))" ..
  then obtain out where pal: "palette decoded_palette_2x1 = Some pal"
    and g: "getPixels decoded_palette_2x1 0 = Inr out"
    and nth: "\<forall>i < unat (width decoded_palette_2x1) * unat (height decoded_palette_2x1).
               out ! (4 * i) = byte_at pal (Some (unat (pixels decoded_palette_2x1 ! i) * 4
                    + 0 * (unat (paletteSize decoded_palette_2x1)
                            div unat (numPalettes decoded_palette_2x1)) * 4 + 2))
             \<and> out ! (4 * i + 1) = byte_at pal (Some (unat (pixels decoded_palette_2x1 ! i) * 4
                    + 0 * (unat (paletteSize decoded_palette_2x1)
                            div unat (numPalettes decoded_palette_2x1)) * 4 + 1))
             \<and> out ! (4 * i + 2) = byte_at pal (Some (unat (pixels decoded_palette_2x1 ! i) * 4
                    + 0 * (unat (paletteSize decoded_palette_2x1)
                            div unat (numPalettes decoded_palette_2x1)) * 4))
             \<and> out ! (4 * i + 3) = byte_at pal (Some (unat (pixels decoded_palette_2x1 ! i) * 4
                    + 0 * (unat (paletteSize decoded_palette_2x1)
                            div unat (numPalettes decoded_palette_2x1)) * 4 + 3))"
    by (elim exE conjE)
  have "(0::nat) < unat (width decoded_palette_2x1) * unat (height decoded_palette_2x1)"
    by (simp add: decoded_palette_2x1_def)
  from nth [rule_format, OF this]
  have "out ! 0 = byte_at pal (Some 2)"
    by (simp add: decoded_palette_2x1_def numeral_2_eq_2)
  with pal g have "\<exists>pal out. palette decoded_palette_2x1 = Some pal
        \<and> getPixels decoded_palette_2x1 0 = Inr out \<and> out ! 0 = byte_at pal (Some 2)"
    by (intro exI conjI)
  with TexFile_tex_palette_2x1 h2 h3 T [THEN conjunct1] show ?thesis
    by (intro conjI)
qed

text \<open>
  C10. The division in \<open>actualColorsPerPalette\<close> is never evaluated at a zero divisor:
  the result is a number for every structure. When the palette count is 0 it is the
  header's colors-per-palette field, and pixel expansion of a decoded palette-mode
  texture with palette index \<open>k\<close> then returns, for pixel \<open>i\<close> with pixel byte \<open>p\<close>, the
  palette bytes at \<open>c + 2\<close>, \<open>c + 1\<close>, \<open>c\<close>, \<open>c + 3\<close> where
  \<open>c = 4 p + 4 k colorsPerPalette\<close>.
\<close>

theorem actualColorsPerPalette_guarded:
  "actualColorsPerPalette d \<noteq> None
   \<and> (numPalettes d = 0 \<longrightarrow> actualColorsPerPalette d = Some (unat (colorsPerPalette d)))
   \<and> (\<forall>buf k. TexFile buf = Inr d \<longrightarrow> paletteFlag d \<noteq> 0 \<longrightarrow> numPalettes d = 0 \<longrightarrow>
        (\<exists>pal out. palette d = Some pal \<and> getPixels d k = Inr out
          \<and> length out = 4 * (unat (width d) * unat (height d))
          \<and> (\<forall>i < unat (width d) * unat (height d).
               out ! (4 * i) = byte_at pal (Some (unat (pixels d ! i) * 4
                    + k * unat (colorsPerPalette d) * 4 + 2))
             \<and> out ! (4 * i + 1) = byte_at pal (Some (unat (pixels d ! i) * 4
                    + k * unat (colorsPerPalette d) * 4 + 1))
             \<and> out ! (4 * i + 2) = byte_at pal (Some (unat (pixels d ! i) * 4
                    + k * unat (colorsPerPalette d) * 4))
             \<and> out ! (4 * i + 3) = byte_at pal (Some (unat (pixels d ! i) * 4
                    + k * unat (colorsPerPalette d) * 4 + 3)))))"
proof (intro conjI allI impI)
  show "actualColorsPerPalette d \<noteq> None"
    by (simp add: actualColorsPerPalette_def js_floor_div_def)
next
  assume "numPalettes d = 0"
  then show "actualColorsPerPalette d = Some (unat (colorsPerPalette d))"
    by (simp add: actualColorsPerPalette_def)
next
  fix buf k
  assume t: "TexFile buf = Inr d" and f: "paletteFlag d \<noteq> 0" and z: "numPalettes d = 0"
  from z have a: "actualColorsPerPalette d = Some (unat (colorsPerPalette d))"
    by (simp add: actualColorsPerPalette_def)
  show "\<exists>pal out. palette d = Some pal \<and> getPixels d k = Inr out
          \<and> length out = 4 * (unat (width d) * unat (height d))
          \<and> (\<forall>i < unat (width d) * unat (height d).
               out ! (4 * i) = byte_at pal (Some (unat (pixels d ! i) * 4
                    + k * unat (colorsPerPalette d) * 4 + 2))
             \<and> out ! (4 * i + 1) = byte_at pal (Some (unat (pixels d ! i) * 4
                    + k * unat (colorsPerPalette d) * 4 + 1))
             \<and> out ! (4 * i + 2) = byte_at pal (Some (unat (pixels d ! i) * 4
                    + k * unat (colorsPerPalette d) * 4))
             \<and> out ! (4 * i + 3) = byte_at pal (Some (unat (pixels d ! i) * 4
                    + k * unat (colorsPerPalette d) * 4 + 3)))"
    by (rule getPixels_palette [OF t f a])
qed

theorem actualColorsPerPalette_guarded_witness:
  "numPalettes decoded_no_count = 0
   \<and> TexFile tex_no_count = Inr decoded_no_count
   \<and> paletteFlag decoded_no_count \<noteq> 0
   \<and> actualColorsPerPalette decoded_no_count \<noteq> None
   \<and> actualColorsPerPalette decoded_no_count = Some (unat (colorsPerPalette decoded_no_count))
   \<and> (\<exists>pal out. palette decoded_no_count = Some pal
        \<and> getPixels decoded_no_count 1 = Inr out
        \<and> length out = 4 * (unat (width decoded_no_count) * unat (height decoded_no_count)))"
proof -
  have h1: "numPalettes decoded_no_count = 0" and h3: "paletteFlag decoded_no_count \<noteq> 0"
    by (simp_all add: decoded_no_count_def zero_tex_def)
  note T = actualColorsPerPalette_guarded [of decoded_no_count]
  note T1 = T [THEN conjunct1]
  note T2 = T [THEN conjunct2, THEN conjunct1, rule_format, OF h1]
  note T3 = T [THEN conjunct2, THEN conjunct2, rule_format, OF TexFile_tex_no_count h3 h1,
      of 1]
  from T3 obtain pal out where "palette decoded_no_count = Some pal"
    and "getPixels decoded_no_count 1 = Inr out"
    and "length out = 4 * (unat (width decoded_no_count) * unat (height decoded_no_count))"
    by (elim exE conjE)
  then have "\<exists>pal out. palette decoded_no_count = Some pal
        \<and> getPixels decoded_no_count 1 = Inr out
        \<and> length out = 4 * (unat (width decoded_no_count) * unat (height decoded_no_count))"
    by (intro exI conjI)
  with h1 TexFile_tex_no_count h3 T1 T2 show ?thesis
    by (intro conjI)
qed

text \<open>
  C6, as the claim states it, fails: \<open>tex_direct_bpp3\<close> decodes to a direct-color texture
  with 3 bytes per pixel (the validation admits 1 to 4), and pixel expansion throws a
  \<open>RangeError\<close>: every pixel that is not 2 bytes wide is read with \<open>getUint32\<close>, which
  needs 4 bytes in a window of 3.
\<close>

theorem getPixels_direct_mode_counterexample:
  "TexFile tex_direct_bpp3 = Inr decoded_direct_bpp3
   \<and> paletteFlag decoded_direct_bpp3 = 0
   \<and> unat (bytesPerPixel decoded_direct_bpp3) = 3
   \<and> getPixels decoded_direct_bpp3 0 = Inl RangeError"
proof -
  have "paletteFlag decoded_direct_bpp3 = 0" and "unat (bytesPerPixel decoded_direct_bpp3) = 3"
    by (simp_all add: decoded_direct_bpp3_def zero_tex_def)
  moreover have "getPixels decoded_direct_bpp3 0 = Inl RangeError"
    by code_simp
  ultimately show ?thesis
    using TexFile_tex_direct_bpp3 by (intro conjI)
qed

text \<open>
  C6, amended. For every decoded direct-color texture with 2 or 4 bytes per pixel, pixel
  expansion returns four bytes per pixel: with \<open>v\<close> the little-endian unsigned integer
  of the pixel's bytes, red, green and blue are
  \<open>((v & mask) >> shift) << (8 - bits)\<close> of their channel, and alpha is that of the alpha
  channel when the format has alpha bits and 255 when it has none. With 5 red bits, mask
  \<open>0x7C00\<close> and shift 10, the value \<open>0x7C00\<close> gives red \<open>0xF8\<close>.
\<close>

theorem getPixels_direct_mode:
  assumes "TexFile buf = Inr t" and "paletteFlag t = 0"
    and "unat (bytesPerPixel t) = 2 \<or> unat (bytesPerPixel t) = 4"
  shows "(\<exists>out. getPixels t k = Inr out
       \<and> length out = 4 * (unat (width t) * unat (height t))
       \<and> (\<forall>i < unat (width t) * unat (height t).
            \<exists>v. unat v = little_endian_value
                           (slice_bytes (pixels t) (i * unat (bytesPerPixel t))
                              (i * unat (bytesPerPixel t) + unat (bytesPerPixel t)))
              \<and> out ! (4 * i) = channel v (redMask (pixelFormat t))
                    (redShift (pixelFormat t)) (redBits (pixelFormat t))
              \<and> out ! (4 * i + 1) = channel v (greenMask (pixelFormat t))
                    (greenShift (pixelFormat t)) (greenBits (pixelFormat t))
              \<and> out ! (4 * i + 2) = channel v (blueMask (pixelFormat t))
                    (blueShift (pixelFormat t)) (blueBits (pixelFormat t))
              \<and> out ! (4 * i + 3) =
                    (if unat (alphaBits (pixelFormat t)) > 0
                     then channel v (alphaMask (pixelFormat t))
                            (alphaShift (pixelFormat t)) (alphaBits (pixelFormat t))
                     else 255)))
     \<and> channel 0x7C00 0x7C00 10 5 = 0xF8"
proof -
  have "channel 0x7C00 0x7C00 10 5 = 0xF8" by code_simp
  with getPixels_direct [OF assms, of k] show ?thesis by (intro conjI)
qed

theorem getPixels_direct_mode_witness:
  "TexFile tex_direct_16 = Inr decoded_direct_16
   \<and> paletteFlag decoded_direct_16 = 0
   \<and> unat (bytesPerPixel decoded_direct_16) = 2
   \<and> (\<exists>out. getPixels decoded_direct_16 0 = Inr out
        \<and> length out = 4 * (unat (width decoded_direct_16) * unat (height decoded_direct_16)))
   \<and> getPixels decoded_direct_16 0 = Inr [0xF8, 0, 0, 255]"
proof -
  have h2: "paletteFlag decoded_direct_16 = 0"
    and b: "unat (bytesPerPixel decoded_direct_16) = 2"
    by (simp_all add: decoded_direct_16_def zero_tex_def)
  from b have h3: "unat (bytesPerPixel decoded_direct_16) = 2
                 \<or> unat (bytesPerPixel decoded_direct_16) = 4" ..
  note T = getPixels_direct_mode [OF TexFile_tex_direct_16 h2 h3, of 0, THEN conjunct1]
  from T obtain out where "getPixels decoded_direct_16 0 = Inr out"
    and "length out = 4 * (unat (width decoded_direct_16) * unat (height decoded_direct_16))"
    by (elim exE conjE)
  then have e: "\<exists>out. getPixels decoded_direct_16 0 = Inr out
        \<and> length out = 4 * (unat (width decoded_direct_16) * unat (height decoded_direct_16))"
    by (intro exI conjI)
  have v: "getPixels decoded_direct_16 0 = Inr [0xF8, 0, 0, 255]" by code_simp
  from TexFile_tex_direct_16 h2 b e v show ?thesis by (intro conjI)
qed

section \<open>Re-encoding never returns the decoded buffer\<close>

text \<open>
  The failure of \<open>writeFile\<close> is not particular to one image. The header statements
  always succeed and leave the offset at \<open>0xFC\<close>, 16 bytes past the \<open>0xEC\<close> that the
  size of the output array allows for. So for a texture decoded from a standard-layout
  buffer \<open>writeFile\<close> can only return when the color-key flag is set, the palette count
  is at least 16 and the color-key array was left out by the constructor; and then the
  output is longer than the buffer decoded. No standard-layout buffer is returned by
  decoding and re-encoding it.
\<close>

lemma put_Some:
  "snd s + 4 \<le> length (fst s) \<Longrightarrow>
     \<exists>out'. put v s = Some (out', snd s + 4) \<and> length out' = length (fst s)"
  by (simp add: put_def setUint32_def)

lemma write_header_Some:
  assumes "232 \<le> length out"
  shows "\<exists>out'. write_header d out = Some (out', 252) \<and> length out' = length out"
  using assms
  by (simp add: write_header_def put_def adv_def setUint32_def)

lemma set_array_Some:
  "set_array out src off = Some out' \<Longrightarrow> length src + off \<le> length out \<and> length out' = length out"
  by (auto simp: set_array_def split: if_splits)

lemma TexFile_Inr_payload:
  assumes "TexFile buf = Inr t"
  shows "length (pixels t) = pixel_bytes t"
    and "paletteFlag t \<noteq> 0 \<Longrightarrow> \<exists>pal. palette t = Some pal \<and> length pal = palette_bytes t"
    and "paletteFlag t = 0 \<Longrightarrow> palette t = None"
    and "colorKeyArray t = None \<Longrightarrow> colorKeyArrayFlag t \<noteq> 0 \<Longrightarrow>
           length buf < headerSize t + palette_bytes t + pixel_bytes t + unat (numPalettes t)"
    and "\<And>cka. colorKeyArray t = Some cka \<Longrightarrow> length cka = unat (numPalettes t)"
proof -
  from TexFile_Inr [OF assms] obtain h where
    h: "texHeaderParser buf = Some h" "isValidTexData h"
    and len: "headerSize h + palette_bytes h + pixel_bytes h \<le> length buf"
    and t: "t = read_colorKeyArray buf (with_pixels buf h)
                  (headerSize h + palette_bytes h + pixel_bytes h)"
    by blast
  note fresh = texHeaderParser_fresh [OF h(1)]
  show "length (pixels t) = pixel_bytes t"
    using len by (simp add: t read_colorKeyArray_def with_pixels_def with_palette_def
        Let_def length_slice_bytes pixel_bytes_def)
  show "\<exists>pal. palette t = Some pal \<and> length pal = palette_bytes t" if "paletteFlag t \<noteq> 0"
    using that len by (simp add: t read_colorKeyArray_def with_pixels_def with_palette_def
        Let_def length_slice_bytes palette_bytes_def split: if_splits)
  show "palette t = None" if "paletteFlag t = 0"
    using that fresh by (simp add: t read_colorKeyArray_def with_pixels_def with_palette_def
        Let_def split: if_splits)
  show "length buf < headerSize t + palette_bytes t + pixel_bytes t + unat (numPalettes t)"
    if "colorKeyArray t = None" "colorKeyArrayFlag t \<noteq> 0"
    using that by (simp add: t read_colorKeyArray_def with_pixels_def with_palette_def
        Let_def palette_bytes_def pixel_bytes_def split: if_splits)
  show "length cka = unat (numPalettes t)" if "colorKeyArray t = Some cka" for cka
    using that fresh by (auto simp add: t read_colorKeyArray_def with_pixels_def with_palette_def
        Let_def length_slice_bytes split: if_splits)
qed

lemma TexFile_Inr_headerSize:
  assumes "TexFile buf = Inr t" and "formatIndicator t = 0"
  shows "headerSize t = 0xEC"
proof -
  from TexFile_Inr [OF assms(1)] obtain h where
    h: "texHeaderParser buf = Some h"
    and t: "t = read_colorKeyArray buf (with_pixels buf h)
                  (headerSize h + palette_bytes h + pixel_bytes h)"
    by blast
  have "formatIndicator t = formatIndicator h" and hs: "headerSize t = headerSize h"
    by (simp_all add: t read_colorKeyArray_def with_pixels_def with_palette_def Let_def)
  with assms(2) have "formatIndicator h = 0" by simp
  with texHeaderParser_Some_layout [OF h]
  have "h = header_layout buf 0"
    by (auto simp: header_layout_def)
  then have "headerSize h = 0xEC"
    by (simp add: header_layout_def)
  with hs show ?thesis by simp
qed

lemma writeFile_decoded_standard:
  assumes "TexFile buf = Inr t" and "formatIndicator t = 0" and "writeFile t = Inr out"
  shows "length buf < length out"
proof -
  note pl = TexFile_Inr_payload [OF assms(1)]
  let ?ck = "if colorKeyArrayFlag t \<noteq> 0 then unat (numPalettes t) else 0"
  let ?total = "0xEC + palette_bytes t + pixel_bytes t + ?ck"
  let ?out0 = "replicate ?total (0 :: byte)"
  have w: "writeFile t = (case write_header t ?out0 \<bind> write_payload t of
                            None \<Rightarrow> Inl RangeError | Some out \<Rightarrow> Inr out)"
    by (simp add: writeFile_def Let_def palette_bytes_def pixel_bytes_def)
  have "232 \<le> length ?out0" by simp
  from write_header_Some [OF this, of t] obtain out1 where
    h1: "write_header t ?out0 = Some (out1, 252)" and l1: "length out1 = ?total"
    by auto
  from w h1 assms(3) have p: "write_payload t (out1, 252) = Some out"
    by (simp split: option.splits)
  obtain out2 off2 where
    s1: "(case palette t of
           Some pal \<Rightarrow>
             if paletteFlag t \<noteq> 0
             then map_option (\<lambda>out. (out, 252 + length pal)) (set_array out1 pal 252)
             else Some (out1, 252)
         | None \<Rightarrow> Some (out1, 252)) = Some (out2, off2)"
    and s2rest: "(set_array out2 (pixels t) off2 \<bind> (\<lambda>out3.
           case colorKeyArray t of
             Some cka \<Rightarrow> if colorKeyArrayFlag t \<noteq> 0
                         then set_array out3 cka (off2 + length (pixels t)) else Some out3
           | None \<Rightarrow> Some out3)) = Some out"
  proof -
    from p have "(case palette t of
           Some pal \<Rightarrow>
             if paletteFlag t \<noteq> 0
             then map_option (\<lambda>out. (out, 252 + length pal)) (set_array out1 pal 252)
             else Some (out1, 252)
         | None \<Rightarrow> Some (out1, 252)) \<bind> (\<lambda>(out2, off2).
           set_array out2 (pixels t) off2 \<bind> (\<lambda>out3.
           case colorKeyArray t of
             Some cka \<Rightarrow> if colorKeyArrayFlag t \<noteq> 0
                         then set_array out3 cka (off2 + length (pixels t)) else Some out3
           | None \<Rightarrow> Some out3)) = Some out"
      by (cases "palette t"; cases "paletteFlag t = 0")
        (simp_all add: write_payload_def Let_def)
    then show ?thesis
      using that by (auto split: Option.bind_splits)
  qed
  have o2: "length out2 = ?total \<and> off2 = 252 + palette_bytes t"
  proof (cases "paletteFlag t = 0")
    case True
    with pl(3) s1 l1 show ?thesis by (simp add: palette_bytes_def)
  next
    case False
    with pl(2) obtain pal where pal: "palette t = Some pal" "length pal = palette_bytes t"
      by blast
    with s1 False obtain o' where "set_array out1 pal 252 = Some o'" "out2 = o'"
      "off2 = 252 + length pal"
      by auto
    with set_array_Some [of out1 pal 252 o'] l1 pal show ?thesis by simp
  qed
  from s2rest obtain out3 where
    s2: "set_array out2 (pixels t) off2 = Some out3"
    and s3: "(case colorKeyArray t of
             Some cka \<Rightarrow> if colorKeyArrayFlag t \<noteq> 0
                         then set_array out3 cka (off2 + length (pixels t)) else Some out3
           | None \<Rightarrow> Some out3) = Some out"
    by (auto split: Option.bind_splits)
  from set_array_Some [OF s2] o2 pl(1)
  have fit: "pixel_bytes t + (252 + palette_bytes t) \<le> ?total" and l3: "length out3 = ?total"
    by simp_all
  from fit have flag: "colorKeyArrayFlag t \<noteq> 0" and np: "16 \<le> unat (numPalettes t)"
    by (simp_all split: if_splits)
  have none: "colorKeyArray t = None"
  proof (cases "colorKeyArray t")
    case None
    then show ?thesis .
  next
    case (Some cka)
    with s3 flag have "set_array out3 cka (off2 + length (pixels t)) = Some out" by simp
    from set_array_Some [OF this] l3 o2 pl(1) pl(5) [OF Some] flag
    show ?thesis by simp
  qed
  with s3 have "out = out3" by simp
  with l3 flag have lo: "length out = 0xEC + palette_bytes t + pixel_bytes t + unat (numPalettes t)"
    by simp
  from pl(4) [OF none flag] TexFile_Inr_headerSize [OF assms(1,2)] lo
  show ?thesis by simp
qed

lemma writeFile_never_roundtrips:
  assumes "TexFile buf = Inr t" and "formatIndicator t = 0"
  shows "writeFile t \<noteq> Inr buf"
proof
  assume "writeFile t = Inr buf"
  from writeFile_decoded_standard [OF assms this] show False by simp
qed

end
